theory Spec2Isabelle
  imports Main "HOL-Library.Word" "HOL-Library.Sublist"
begin

unbundle bit_operations_syntax

section \<open>JavaScript strings\<close>

text \<open>
  A JavaScript string is a sequence of UTF-16 code units; \<open>charCodeAt\<close> returns the
  code unit, a number between 0 and 65535.  ASCII literals of the source are written
  \<open>js ''...''\<close>.
\<close>

type_synonym jschar = "16 word"
type_synonym jsstring = "jschar list"

definition js :: "string \<Rightarrow> jsstring" where
  "js s = map of_char s"

text \<open>\<open>s.slice(0, -k)\<close>: everything but the last \<open>k\<close> code units (empty when the
  string is shorter).\<close>

definition slice_0_neg :: "nat \<Rightarrow> jsstring \<Rightarrow> jsstring" where
  "slice_0_neg k s = take (length s - k) s"

text \<open>\<open>s.slice(-k)\<close>: the last \<open>k\<close> code units (the whole string when it is shorter).\<close>

definition slice_neg :: "nat \<Rightarrow> jsstring \<Rightarrow> jsstring" where
  "slice_neg k s = drop (length s - k) s"

text \<open>\<open>s.replace(pat, rep)\<close> with a string pattern: only the first occurrence is
  replaced, and a string without the pattern is returned unchanged.  (The replacement
  used by the source contains no \<open>$\<close>, so it is inserted literally.)\<close>

fun replace_first :: "jsstring \<Rightarrow> jsstring \<Rightarrow> jsstring \<Rightarrow> jsstring" where
  "replace_first pat rep [] = (if pat = [] then rep else [])"
| "replace_first pat rep (c # cs) =
     (if prefix pat (c # cs) then rep @ drop (length pat) (c # cs)
      else c # replace_first pat rep cs)"

text \<open>\<open>s.split(sep)\<close> for a non-empty separator: the pieces between the occurrences
  of the separator, found from left to right without overlap.  The result is never
  empty: a string without the separator gives the one-element array of itself.\<close>

function split_js :: "jsstring \<Rightarrow> jsstring \<Rightarrow> jsstring list" where
  "split_js sep s =
     (if sep \<noteq> [] \<and> prefix sep s then [] # split_js sep (drop (length sep) s)
      else (case s of
              [] \<Rightarrow> [[]]
            | c # cs \<Rightarrow> (case split_js sep cs of
                           [] \<Rightarrow> [[c]]
                         | p # ps \<Rightarrow> (c # p) # ps)))"
  by pat_completeness auto
termination
  by (relation "measure (\<lambda>(sep, s). length s)") (auto simp: prefix_def)

declare split_js.simps [simp del]

text \<open>Reading \<open>parts[i]\<close> inside a string concatenation: an index past the end gives
  \<open>undefined\<close>, which \<open>+\<close> turns into the text \<open>undefined\<close>.\<close>

definition elem_str :: "jsstring list \<Rightarrow> nat \<Rightarrow> jsstring" where
  "elem_str parts i = (if i < length parts then parts ! i else js ''undefined'')"

text \<open>\<open>n.toString(radix)\<close> for a non-negative integer: digits \<open>0-9a-z\<close>, no leading
  zeros, \<open>0\<close> for zero.\<close>

definition digit_char :: "nat \<Rightarrow> jschar" where
  "digit_char d = (if d < 10 then 48 + of_nat d else 87 + of_nat d)"

function toString_radix :: "nat \<Rightarrow> nat \<Rightarrow> jsstring" where
  "toString_radix r n =
     (if n < r \<or> r < 2 then [digit_char n]
      else toString_radix r (n div r) @ [digit_char (n mod r)])"
  by pat_completeness auto
termination
  by (relation "measure (\<lambda>(r, n). n)") auto

declare toString_radix.simps [simp del]

text \<open>\<open>toUpperCase\<close>, on the strings it is applied to here (the output of
  \<open>toString(16)\<close>): the letters \<open>a-z\<close> become \<open>A-Z\<close>, every other code unit of
  that output stays.\<close>

definition upper_char :: "jschar \<Rightarrow> jschar" where
  "upper_char c = (if 97 \<le> c \<and> c \<le> 122 then c - 32 else c)"

definition toUpperCase :: "jsstring \<Rightarrow> jsstring" where
  "toUpperCase s = map upper_char s"

section \<open>The checksum: \<open>calculateCRC16\<close> and \<open>convertCRC16\<close>\<close>

text \<open>
  The register \<open>crc\<close> is a JavaScript number on which only \<open>^\<close>, \<open><<\<close> and \<open>&\<close>
  operate: each converts its operands to 32-bit integers and returns a 32-bit integer,
  so the register is a 32-bit word.  The source never masks it inside the loop; only the
  final value is masked with \<open>0xFFFF\<close>.

  One pass of the inner loop body:
  \<^verbatim>\<open>if (crc & 0x8000) { crc = (crc << 1) ^ 0x1021; } else { crc <<= 1; }\<close>
\<close>

definition crc_round :: "32 word \<Rightarrow> 32 word" where
  "crc_round crc =
     (if crc AND 0x8000 \<noteq> 0 then push_bit 1 crc XOR 0x1021 else push_bit 1 crc)"

text \<open>\<^verbatim>\<open>for (let i = 0; i < 8; i++) { ... }\<close>, with the number of passes left.\<close>

fun crc_rounds :: "nat \<Rightarrow> 32 word \<Rightarrow> 32 word" where
  "crc_rounds 0 crc = crc"
| "crc_rounds (Suc n) crc = crc_rounds n (crc_round crc)"

text \<open>The outer loop body: \<^verbatim>\<open>crc ^= str.charCodeAt(c) << 8;\<close> and the eight passes.\<close>

definition crc_char :: "32 word \<Rightarrow> jschar \<Rightarrow> 32 word" where
  "crc_char crc ch = crc_rounds 8 (crc XOR push_bit 8 (ucast ch))"

text \<open>\<^verbatim>\<open>for (let c = 0; c < str.length; c++) { ... }\<close>\<close>

fun crc_loop :: "32 word \<Rightarrow> jsstring \<Rightarrow> 32 word" where
  "crc_loop crc [] = crc"
| "crc_loop crc (ch # str) = crc_loop (crc_char crc ch) str"

text \<open>\<^verbatim>\<open>("000" + (crc & 0xFFFF).toString(16).toUpperCase()).slice(-4)\<close>\<close>

definition calculateCRC16 :: "jsstring \<Rightarrow> jsstring" where
  "calculateCRC16 str =
     (let crc = crc_loop 0xFFFF str
      in slice_neg 4 (js ''000'' @ toUpperCase (toString_radix 16 (unat (crc AND 0xFFFF)))))"

text \<open>\<open>convertCRC16\<close> of the older route file runs the same two loops (it writes
  \<^verbatim>\<open>crc = crc << 1\<close> for \<^verbatim>\<open>crc <<= 1\<close>) and formats in two statements.\<close>

definition convertCRC16 :: "jsstring \<Rightarrow> jsstring" where
  "convertCRC16 str =
     (let crc = crc_loop 0xFFFF str;
          hex = unat (crc AND 0xFFFF)
      in slice_neg 4 (js ''000'' @ toUpperCase (toString_radix 16 hex)))"

section \<open>The amount test: \<open>isNaN(amount) || amount <= 0\<close>\<close>

text \<open>
  The composers are reached only from the route handlers, which pass \<open>req.query.amount\<close>:
  the amount is a string (an array of strings behaves as its comma-joined string, both
  under \<open>Number\<close> and under \<open>toString\<close>).  \<open>isNaN\<close> and \<open><=\<close> convert it with
  \<open>Number\<close>, whose grammar of numeric strings is modelled here: optional white space
  around either a signed decimal literal (digits, optional fraction, optional exponent,
  or \<open>Infinity\<close>) or an unsigned \<open>0x\<close>, \<open>0o\<close>, \<open>0b\<close> literal; the empty string is 0;
  anything else is \<open>NaN\<close>.

  \<open>Finite neg m e\<close> carries the exact value \<open>\<plusminus> m * 10 ^ e\<close> of the literal; the Number
  is that value rounded to the nearest binary64 value (ties to even), which matters to
  \<open><= 0\<close> only through underflow to zero.
\<close>

datatype jsnumber = NaN | Infinity bool | Finite bool nat int

definition is_ws :: "jschar \<Rightarrow> bool" where
  "is_ws c =
     (c \<in> set [0x9, 0xA, 0xB, 0xC, 0xD, 0x20, 0xA0, 0x1680, 0x2028, 0x2029, 0x202F,
                0x205F, 0x3000, 0xFEFF]
      \<or> (0x2000 \<le> c \<and> c \<le> 0x200A))"

definition trim :: "jsstring \<Rightarrow> jsstring" where
  "trim s = rev (dropWhile is_ws (rev (dropWhile is_ws s)))"

definition digit_val :: "jschar \<Rightarrow> nat option" where
  "digit_val c =
     (if 48 \<le> c \<and> c \<le> 57 then Some (unat c - 48)
      else if 97 \<le> c \<and> c \<le> 122 then Some (unat c - 87)
      else if 65 \<le> c \<and> c \<le> 90 then Some (unat c - 55)
      else None)"

definition is_digit :: "nat \<Rightarrow> jschar \<Rightarrow> bool" where
  "is_digit r c = (case digit_val c of Some d \<Rightarrow> d < r | None \<Rightarrow> False)"

fun digits_value :: "nat \<Rightarrow> nat \<Rightarrow> jsstring \<Rightarrow> nat" where
  "digits_value r acc [] = acc"
| "digits_value r acc (c # cs) =
     digits_value r (acc * r + (case digit_val c of Some d \<Rightarrow> d | None \<Rightarrow> 0)) cs"

definition all_digits :: "nat \<Rightarrow> jsstring \<Rightarrow> bool" where
  "all_digits r ds = (ds \<noteq> [] \<and> dropWhile (is_digit r) ds = [])"

text \<open>The exponent part, if any: \<open>e\<close> or \<open>E\<close>, an optional sign, at least one digit.\<close>

definition exponent_part :: "jsstring \<Rightarrow> int option" where
  "exponent_part s =
     (case s of
        [] \<Rightarrow> Some 0
      | c # r \<Rightarrow>
          if c = 0x65 \<or> c = 0x45 then
            (case r of
               [] \<Rightarrow> None
             | d # r' \<Rightarrow>
                 if d = 0x2B then
                   (if all_digits 10 r' then Some (int (digits_value 10 0 r')) else None)
                 else if d = 0x2D then
                   (if all_digits 10 r' then Some (- int (digits_value 10 0 r')) else None)
                 else
                   (if all_digits 10 r then Some (int (digits_value 10 0 r)) else None))
          else None)"

definition unsigned_decimal :: "bool \<Rightarrow> jsstring \<Rightarrow> jsnumber" where
  "unsigned_decimal neg s =
     (if s = js ''Infinity'' then Infinity neg
      else
        let ip = takeWhile (is_digit 10) s;
            r1 = dropWhile (is_digit 10) s;
            dot = (case r1 of [] \<Rightarrow> False | c # _ \<Rightarrow> c = 0x2E);
            fp = (if dot then takeWhile (is_digit 10) (tl r1) else []);
            r2 = (if dot then dropWhile (is_digit 10) (tl r1) else r1)
        in if ip = [] \<and> fp = [] then NaN
           else (case exponent_part r2 of
                   None \<Rightarrow> NaN
                 | Some e \<Rightarrow> Finite neg (digits_value 10 0 (ip @ fp)) (e - int (length fp))))"

definition signed_decimal :: "jsstring \<Rightarrow> jsnumber" where
  "signed_decimal s =
     (case s of
        [] \<Rightarrow> NaN
      | c # r \<Rightarrow>
          if c = 0x2B then unsigned_decimal False r
          else if c = 0x2D then unsigned_decimal True r
          else unsigned_decimal False s)"

definition radix_literal :: "nat \<Rightarrow> jsstring \<Rightarrow> jsnumber" where
  "radix_literal r ds = (if all_digits r ds then Finite False (digits_value r 0 ds) 0 else NaN)"

definition str_numeric_literal :: "jsstring \<Rightarrow> jsnumber" where
  "str_numeric_literal s =
     (case s of
        c0 # c1 # ds \<Rightarrow>
          if c0 = 0x30 \<and> (c1 = 0x78 \<or> c1 = 0x58) then radix_literal 16 ds
          else if c0 = 0x30 \<and> (c1 = 0x6F \<or> c1 = 0x4F) then radix_literal 8 ds
          else if c0 = 0x30 \<and> (c1 = 0x62 \<or> c1 = 0x42) then radix_literal 2 ds
          else signed_decimal s
      | _ \<Rightarrow> signed_decimal s)"

definition ToNumber :: "jsstring \<Rightarrow> jsnumber" where
  "ToNumber s = (let t = trim s in if t = [] then Finite False 0 0 else str_numeric_literal t)"

definition isNaN :: "jsstring \<Rightarrow> bool" where
  "isNaN v = (ToNumber v = NaN)"

text \<open>\<open>x <= 0\<close> on Numbers: false for \<open>NaN\<close>; a positive literal is \<open><= 0\<close> exactly when it
  rounds to zero, that is when it is at most \<open>2 ^ -1075\<close>, half the least positive
  binary64 value.\<close>

fun number_le_zero :: "jsnumber \<Rightarrow> bool" where
  "number_le_zero NaN = False"
| "number_le_zero (Infinity neg) = neg"
| "number_le_zero (Finite neg m e) =
     (neg \<or> m = 0 \<or> (e < 0 \<and> m * 2 ^ 1075 \<le> 10 ^ nat (- e)))"

definition le_zero :: "jsstring \<Rightarrow> bool" where
  "le_zero v = number_le_zero (ToNumber v)"

section \<open>The composers: \<open>createDynamicQRIS\<close> and \<open>createQRIS\<close>\<close>

text \<open>The three \<^verbatim>\<open>throw new Error(...)\<close> of \<open>createDynamicQRIS\<close>, by their messages:
  invalid base QRIS data, invalid amount, unexpected format.\<close>

datatype error = InvalidBaseQris | InvalidAmount | UnexpectedFormat

text \<open>\<^verbatim>\<open>"54" + ("0" + amountStr.length).slice(-2) + amountStr\<close>\<close>

definition amountField :: "jsstring \<Rightarrow> jsstring" where
  "amountField amountStr =
     js ''54'' @ slice_neg 2 (js ''0'' @ toString_radix 10 (length amountStr)) @ amountStr"

text \<open>
  \<open>createDynamicQRIS\<close> up to the string it hands to the QR encoder,
  \<^verbatim>\<open>finalQrisString + crc\<close>; rendering and upload are outside the model.  For a string
  argument the first guard reduces to the length test (the empty string is the only falsy
  string), and \<open>amount.toString()\<close> is the string itself.
\<close>

definition createDynamicQRIS :: "jsstring \<Rightarrow> jsstring \<Rightarrow> error + jsstring" where
  "createDynamicQRIS baseQrisData amount =
     (if length baseQrisData < 10 then Inl InvalidBaseQris
      else if isNaN amount \<or> le_zero amount then Inl InvalidAmount
      else
        let processedQris =
              replace_first (js ''010211'') (js ''010212'') (slice_0_neg 4 baseQrisData);
            parts = split_js (js ''5802ID'') processedQris
        in if length parts \<noteq> 2 then Inl UnexpectedFormat
           else
             let amountStr = amount;
                 finalQrisString =
                   parts ! 0 @ amountField amountStr @ js ''5802ID'' @ parts ! 1;
                 crc = calculateCRC16 finalQrisString
             in Inr (finalQrisString @ crc))"

text \<open>
  \<open>createQRIS\<close> of the older route file, up to \<open>result\<close>, the string it hands to the QR
  encoder.  It has no guard: \<open>step2[1]\<close> is read whatever the length of \<open>step2\<close>.
\<close>

definition createQRIS :: "jsstring \<Rightarrow> jsstring \<Rightarrow> jsstring" where
  "createQRIS amount codeqr =
     (let qrisData = slice_0_neg 4 codeqr;
          step1 = replace_first (js ''010211'') (js ''010212'') qrisData;
          step2 = split_js (js ''5802ID'') step1;
          uang = js ''54'' @ slice_neg 2 (js ''0'' @ toString_radix 10 (length amount)) @ amount
                 @ js ''5802ID''
      in elem_str step2 0 @ uang @ elem_str step2 1
         @ convertCRC16 (elem_str step2 0 @ uang @ elem_str step2 1))"

section \<open>Notions of the specification\<close>

text \<open>The number of positions at which a marker occurs in a string.\<close>

fun occurrences :: "jsstring \<Rightarrow> jsstring \<Rightarrow> nat" where
  "occurrences pat [] = (if pat = [] then 1 else 0)"
| "occurrences pat (c # cs) = (if prefix pat (c # cs) then 1 else 0) + occurrences pat cs"

text \<open>
  The checksum as the specification describes it (CRC-16/CCITT-FALSE): a 16-bit register
  starting at \<open>0xFFFF\<close>; each character's code point, masked to one byte, is XORed into
  the high byte; then eight rounds of: shift left by one, XORing \<open>0x1021\<close> when the top
  bit was set; the final value, masked to 16 bits, as four upper-case hexadecimal digits.
\<close>

definition ccitt_round :: "16 word \<Rightarrow> 16 word" where
  "ccitt_round reg = (if bit reg 15 then push_bit 1 reg XOR 0x1021 else push_bit 1 reg)"

fun ccitt_rounds :: "nat \<Rightarrow> 16 word \<Rightarrow> 16 word" where
  "ccitt_rounds 0 reg = reg"
| "ccitt_rounds (Suc n) reg = ccitt_rounds n (ccitt_round reg)"

definition ccitt_char :: "16 word \<Rightarrow> jschar \<Rightarrow> 16 word" where
  "ccitt_char reg ch = ccitt_rounds 8 (reg XOR push_bit 8 (ch AND 0xFF))"

fun ccitt_false :: "16 word \<Rightarrow> jsstring \<Rightarrow> 16 word" where
  "ccitt_false reg [] = reg"
| "ccitt_false reg (ch # str) = ccitt_false (ccitt_char reg ch) str"

definition hex4 :: "nat \<Rightarrow> jsstring" where
  "hex4 v =
     map (\<lambda>d. upper_char (digit_char d))
       [v div 4096 mod 16, v div 256 mod 16, v div 16 mod 16, v mod 16]"

definition compute_checksum :: "jsstring \<Rightarrow> jsstring" where
  "compute_checksum payload = hex4 (unat (ccitt_false 0xFFFF payload AND 0xFFFF))"

text \<open>\<open>zero_pad_2\<close>: a decimal number padded with zeros on the left to two digits.\<close>

definition zero_pad_2 :: "nat \<Rightarrow> jsstring" where
  "zero_pad_2 n = (if n < 10 then js ''0'' @ toString_radix 10 n else toString_radix 10 n)"

text \<open>The processed template of the composers (checksum stripped, mode switched) and the
  two segments around the anchor: the head (everything before the anchor) and the tail
  (everything after it).\<close>

definition processed_template :: "jsstring \<Rightarrow> jsstring" where
  "processed_template template =
     replace_first (js ''010211'') (js ''010212'') (slice_0_neg 4 template)"

definition head_segment :: "jsstring \<Rightarrow> jsstring" where
  "head_segment template = split_js (js ''5802ID'') (processed_template template) ! 0"

definition tail_after_anchor :: "jsstring \<Rightarrow> jsstring" where
  "tail_after_anchor template = split_js (js ''5802ID'') (processed_template template) ! 1"

text \<open>\<open>parts.join(sep)\<close>, the inverse of \<open>split\<close>.\<close>

fun join_js :: "jsstring \<Rightarrow> jsstring list \<Rightarrow> jsstring" where
  "join_js sep [] = []"
| "join_js sep [p] = p"
| "join_js sep (p # q # ps) = p @ sep @ join_js sep (q # ps)"

text \<open>An amount of one hundred decimal digits, the number \<open>10 ^ 99\<close>, used as an
  example of an amount string longer than 99 characters.\<close>

definition long_amount :: jsstring where
  "long_amount = js (CHR ''1'' # replicate 99 CHR ''0'')"

section \<open>Properties of the checksum\<close>

subsection \<open>Shape of the formatted value\<close>

lemma toString_radix_nonempty: "toString_radix r n \<noteq> []"
  by (subst toString_radix.simps) simp

lemma js_hex_digits: "js ''0123456789ABCDEF'' = [48,49,50,51,52,53,54,55,56,57,65,66,67,68,69,70]"
  by (simp add: js_def)

lemma upper_digit_char_hex:
  assumes "d < 16"
  shows "upper_char (digit_char d) \<in> set (js ''0123456789ABCDEF'')"
proof -
  from assms have "d \<in> {0,1,2,3,4,5,6,7,8,9,10,11,12,13,14,15}"
    unfolding insert_iff empty_iff by arith
  then show ?thesis
    unfolding js_hex_digits
    by (auto simp: upper_char_def digit_char_def)
qed

lemma toString_radix_16_digits:
  "set (toUpperCase (toString_radix 16 n)) \<subseteq> set (js ''0123456789ABCDEF'')"
proof (induction "16::nat" n rule: toString_radix.induct)
  case (1 n)
  show ?case
  proof (cases "n < 16")
    case True
    then show ?thesis
      by (subst toString_radix.simps) (simp add: toUpperCase_def upper_digit_char_hex)
  next
    case False
    with 1 have "set (toUpperCase (toString_radix 16 (n div 16))) \<subseteq> set (js ''0123456789ABCDEF'')"
      by simp
    moreover have "upper_char (digit_char (n mod 16)) \<in> set (js ''0123456789ABCDEF'')"
      by (rule upper_digit_char_hex) simp
    ultimately show ?thesis using False
      by (subst toString_radix.simps) (simp add: toUpperCase_def)
  qed
qed

lemma slice_neg_pad_length:
  assumes "x \<noteq> []"
  shows "length (slice_neg 4 (js ''000'' @ x)) = 4"
  using assms by (cases x) (auto simp: slice_neg_def js_def)

lemma slice_neg_set: "set (slice_neg k s) \<subseteq> set s"
  by (simp add: slice_neg_def set_drop_subset)

lemma zero_in_hex: "set (js ''000'') \<subseteq> set (js ''0123456789ABCDEF'')"
  by (simp add: js_def)

lemma hex4_wellformed:
  "length (slice_neg 4 (js ''000'' @ toUpperCase (toString_radix 16 n))) = 4 \<and>
   set (slice_neg 4 (js ''000'' @ toUpperCase (toString_radix 16 n))) \<subseteq> set (js ''0123456789ABCDEF'')"
proof
  have "toUpperCase (toString_radix 16 n) \<noteq> []"
    by (simp add: toUpperCase_def toString_radix_nonempty)
  then show "length (slice_neg 4 (js ''000'' @ toUpperCase (toString_radix 16 n))) = 4"
    by (rule slice_neg_pad_length)
  have "set (slice_neg 4 (js ''000'' @ toUpperCase (toString_radix 16 n)))
      \<subseteq> set (js ''000'' @ toUpperCase (toString_radix 16 n))"
    by (rule slice_neg_set)
  also have "\<dots> \<subseteq> set (js ''0123456789ABCDEF'')"
    using zero_in_hex toString_radix_16_digits [of n] by simp
  finally show "set (slice_neg 4 (js ''000'' @ toUpperCase (toString_radix 16 n))) \<subseteq> set (js ''0123456789ABCDEF'')" .
qed

lemma calculateCRC16_length: "length (calculateCRC16 s) = 4"
  by (simp add: calculateCRC16_def hex4_wellformed)

lemma convertCRC16_calculateCRC16: "convertCRC16 s = calculateCRC16 s"
  by (simp add: convertCRC16_def calculateCRC16_def)

text \<open>
  Claim C8.  The checksum functions are functions of their argument alone (they read no
  state, so equal strings give equal checksums), and for every input string the value
  returned by \<open>calculateCRC16\<close>, and by \<open>convertCRC16\<close>, has exactly four characters,
  each of them one of the upper-case hexadecimal digits \<open>0-9A-F\<close>.
\<close>

theorem checksum_wellformed:
  "length (calculateCRC16 s) = 4 \<and>
   set (calculateCRC16 s) \<subseteq> set (js ''0123456789ABCDEF'') \<and>
   length (convertCRC16 s) = 4 \<and>
   set (convertCRC16 s) \<subseteq> set (js ''0123456789ABCDEF'')"
  by (simp add: convertCRC16_def calculateCRC16_def hex4_wellformed)

subsection \<open>The 32-bit register computes the 16-bit CRC\<close>

text \<open>
  The bits of the register above the low sixteen never flow back: a left shift and an
  XOR move bits upwards only, and the test \<open>crc & 0x8000\<close> reads bit 15.  So the low
  half of the 32-bit register of the source is, after every step, the 16-bit register
  of the specification, and only the low byte of a code unit reaches it.
\<close>

lemma ucast_xor_down: "(ucast (a XOR b :: 32 word) :: 16 word) = ucast a XOR ucast b"
  by (rule bit_word_eqI) (simp add: bit_simps)

lemma ucast_push_bit_down: "(ucast (push_bit n (a :: 32 word)) :: 16 word) = push_bit n (ucast a)"
  by (rule bit_word_eqI) (auto simp: bit_simps)

lemma ucast_char_high:
  "(ucast (push_bit 8 (ucast (ch :: 16 word) :: 32 word)) :: 16 word) = push_bit 8 (ch AND mask 8)"
  by (rule bit_word_eqI) (auto simp: bit_simps)

lemma mask8: "(0xFF :: 16 word) = mask 8"
  by (simp add: mask_eq_exp_minus_1)

lemma mask16: "(0xFFFF :: 32 word) = mask 16"
  by (simp add: mask_eq_exp_minus_1)

lemma top_bit_test: "((crc :: 32 word) AND 0x8000 \<noteq> 0) = bit (ucast crc :: 16 word) 15"
proof -
  have "(crc AND 2 ^ 15 \<noteq> 0) = bit crc 15"
    using and_exp_eq_0_iff_not_bit [of crc 15] by blast
  then show ?thesis by (simp add: bit_ucast_iff)
qed

lemma crc_round_low: "ucast (crc_round crc) = ccitt_round (ucast crc)"
proof (cases "bit (ucast crc :: 16 word) 15")
  case True
  then have "crc_round crc = push_bit 1 crc XOR 0x1021"
    by (simp only: crc_round_def top_bit_test if_True)
  then have "(ucast (crc_round crc) :: 16 word) = push_bit 1 (ucast crc) XOR ucast (0x1021 :: 32 word)"
    by (simp only: ucast_xor_down ucast_push_bit_down)
  with True show ?thesis by (simp add: ccitt_round_def)
next
  case False
  then have "crc_round crc = push_bit 1 crc"
    by (simp only: crc_round_def top_bit_test if_False)
  then have "(ucast (crc_round crc) :: 16 word) = push_bit 1 (ucast crc)"
    by (simp only: ucast_push_bit_down)
  with False show ?thesis by (simp add: ccitt_round_def)
qed

lemma crc_rounds_low: "ucast (crc_rounds n crc) = ccitt_rounds n (ucast crc)"
  by (induction n arbitrary: crc) (simp_all add: crc_round_low)

lemma crc_char_low: "ucast (crc_char crc ch) = ccitt_char (ucast crc) ch"
  by (simp only: crc_char_def ccitt_char_def crc_rounds_low ucast_xor_down ucast_char_high mask8)

lemma crc_loop_low: "ucast (crc_loop crc str) = ccitt_false (ucast crc) str"
  by (induction str arbitrary: crc) (simp_all add: crc_char_low)


lemma unat_low16: "unat ((w :: 32 word) AND 0xFFFF) = unat (ucast w :: 16 word)"
  by (simp only: mask16 take_bit_eq_mask [symmetric] unsigned_take_bit_eq unsigned_ucast_eq) simp

lemma and_full16: "(r :: 16 word) AND 0xFFFF = r"
proof -
  have "(0xFFFF :: 16 word) = mask 16" by (simp add: mask_eq_exp_minus_1)
  then have "r AND 0xFFFF = take_bit 16 r" by (simp only: take_bit_eq_mask)
  moreover have "take_bit 16 r = r" using take_bit_length_eq [of r] by simp
  ultimately show ?thesis by (simp only:)
qed

lemma toString_radix_small: "n < r \<Longrightarrow> toString_radix r n = [digit_char n]"
  by (subst toString_radix.simps) simp

lemma toString_radix_step:
  "2 \<le> r \<Longrightarrow> r \<le> n \<Longrightarrow> toString_radix r n = toString_radix r (n div r) @ [digit_char (n mod r)]"
  by (subst toString_radix.simps) simp

lemma hex_format:
  assumes "v < 65536"
  shows "slice_neg 4 (js ''000'' @ toUpperCase (toString_radix 16 v)) = hex4 v"
proof -
  consider "v < 16" | "16 \<le> v" "v < 256" | "256 \<le> v" "v < 4096" | "4096 \<le> v"
    by linarith
  then show ?thesis
  proof cases
    case 1
    then show ?thesis
      by (simp add: toString_radix_small hex4_def slice_neg_def js_def toUpperCase_def
          upper_char_def digit_char_def)
  next
    case 2
    then have "v div 16 < 16" by simp
    with 2 show ?thesis
      by (simp add: toString_radix_small toString_radix_step hex4_def slice_neg_def js_def toUpperCase_def
          upper_char_def digit_char_def)
  next
    case 3
    then have a: "v div 16 div 16 < 16" "16 \<le> v div 16" "16 \<le> v" by simp_all
    have b: "v div 256 = v div 16 div 16" by (simp add: div_mult2_eq)
    have c: "v div 4096 = 0" using 3 by simp
    from 3 a show ?thesis
      by (simp add: toString_radix_small toString_radix_step hex4_def slice_neg_def js_def toUpperCase_def b c
          upper_char_def digit_char_def)
  next
    case 4
    with assms have a: "v div 16 div 16 div 16 < 16" "16 \<le> v div 16 div 16" "16 \<le> v div 16" "16 \<le> v"
      by simp_all
    have b: "v div 256 = v div 16 div 16" "v div 4096 = v div 16 div 16 div 16" by (simp_all add: div_mult2_eq)
    have c: "v div 16 div 16 div 16 mod 16 = v div 16 div 16 div 16" using a by simp
    from a show ?thesis
      by (simp add: toString_radix_small toString_radix_step hex4_def slice_neg_def js_def toUpperCase_def b c)
  qed
qed

text \<open>
  Claim C2.  On every input string \<open>calculateCRC16\<close> (and \<open>convertCRC16\<close>) returns the
  CRC-16/CCITT-FALSE checksum of the specification: register \<open>0xFFFF\<close>, each code point
  masked to one byte and XORed into the high byte, eight rounds of shift-left with the
  polynomial \<open>0x1021\<close> XORed in when the top bit was set, all in 16 bits, and the final
  16-bit value formatted as four upper-case hexadecimal digits.
\<close>

theorem calculateCRC16_is_ccitt_false:
  "calculateCRC16 str = compute_checksum str \<and> convertCRC16 str = compute_checksum str"
proof -
  have "unat (crc_loop 0xFFFF str AND 0xFFFF) = unat (ccitt_false 0xFFFF str AND 0xFFFF)"
    by (simp only: unat_low16 crc_loop_low and_full16) simp
  moreover have "unat (ccitt_false 0xFFFF str AND 0xFFFF) < 65536"
    using unsigned_less [of "ccitt_false 0xFFFF str AND 0xFFFF"] by simp
  ultimately show ?thesis
    by (simp add: calculateCRC16_def convertCRC16_def compute_checksum_def hex_format)
qed

section \<open>Properties of the string operations\<close>

lemma split_js_Nil: "split_js sep [] = [[]]"
  by (subst split_js.simps) simp

lemma split_js_Cons:
  "split_js sep (c # cs) =
     (if sep \<noteq> [] \<and> prefix sep (c # cs) then [] # split_js sep (drop (length sep) (c # cs))
      else (case split_js sep cs of [] \<Rightarrow> [[c]] | p # ps \<Rightarrow> (c # p) # ps))"
  by (subst split_js.simps) simp

lemma split_js_not_Nil: "split_js sep s \<noteq> []"
  by (subst split_js.simps) (simp split: list.splits)

lemma join_js_Cons: "ps \<noteq> [] \<Longrightarrow> join_js sep (p # ps) = p @ sep @ join_js sep ps"
  by (cases ps) simp_all

lemma join_js_Cons_head: "join_js sep ((c # p) # ps) = c # join_js sep (p # ps)"
  by (cases ps) simp_all

lemma join_split_js: "sep \<noteq> [] \<Longrightarrow> join_js sep (split_js sep s) = s"
proof (induction sep s rule: split_js.induct)
  case (1 sep s)
  show ?case
  proof (cases "prefix sep s")
    case True
    then have s: "s = sep @ drop (length sep) s"
      by (auto simp: prefix_def)
    from True 1 have "join_js sep (split_js sep (drop (length sep) s)) = drop (length sep) s"
      by simp
    moreover from True 1(3) have "split_js sep s = [] # split_js sep (drop (length sep) s)"
      by (subst split_js.simps) simp
    ultimately have "join_js sep (split_js sep s) = sep @ drop (length sep) s"
      by (simp add: join_js_Cons split_js_not_Nil)
    with s show ?thesis by simp
  next
    case False
    show ?thesis
    proof (cases s)
      case Nil
      then show ?thesis by (simp add: split_js_Nil)
    next
      case (Cons c cs)
      obtain p ps where ps: "split_js sep cs = p # ps"
        using split_js_not_Nil [of sep cs] by (cases "split_js sep cs") auto
      from False Cons 1 have "join_js sep (split_js sep cs) = cs"
        by simp
      moreover from False Cons ps have "split_js sep s = (c # p) # ps"
        by (simp add: split_js_Cons)
      ultimately show ?thesis using Cons ps
        by (simp add: join_js_Cons_head)
    qed
  qed
qed

lemma split_js_two:
  assumes "sep \<noteq> []" and "length (split_js sep s) = 2"
  shows "split_js sep s = [split_js sep s ! 0, split_js sep s ! 1] \<and>
         s = split_js sep s ! 0 @ sep @ split_js sep s ! 1"
proof -
  from assms(2) obtain h t where ht: "split_js sep s = [h, t]"
    by (cases "split_js sep s" rule: list.exhaust)
       (auto simp: length_Suc_conv)
  from join_split_js [OF assms(1), of s] ht have "s = h @ sep @ t" by simp
  with ht show ?thesis by simp
qed

lemma occurrences_skip:
  assumes "sep \<noteq> []" and "hd sep \<notin> set xs"
  shows "occurrences sep (xs @ r) = occurrences sep r"
  using assms
proof (induction xs)
  case Nil
  then show ?case by simp
next
  case (Cons x xs)
  then have "\<not> prefix sep (x # xs @ r)"
    by (cases sep) auto
  with Cons show ?case by simp
qed

lemma occurrences_self_append:
  assumes "sep \<noteq> []" and "hd sep \<notin> set (tl sep)"
  shows "occurrences sep (sep @ r) = Suc (occurrences sep r)"
proof -
  from assms(1) obtain a as where sep: "sep = a # as" by (cases sep) auto
  have "occurrences sep ((a # as) @ r) = Suc (occurrences sep (as @ r))"
    by (simp add: sep)
  moreover have "occurrences sep (as @ r) = occurrences sep r"
    using assms sep by (intro occurrences_skip) simp_all
  ultimately show ?thesis by (simp add: sep)
qed

lemma length_split_js:
  assumes "sep \<noteq> []" and "hd sep \<notin> set (tl sep)"
  shows "length (split_js sep s) = Suc (occurrences sep s)"
  using assms
proof (induction sep s rule: split_js.induct)
  case (1 sep s)
  show ?case
  proof (cases "prefix sep s")
    case True
    then have s: "s = sep @ drop (length sep) s"
      by (auto simp: prefix_def)
    from True 1 have "length (split_js sep (drop (length sep) s)) = Suc (occurrences sep (drop (length sep) s))"
      by simp
    moreover from True 1(3) have "split_js sep s = [] # split_js sep (drop (length sep) s)"
      by (subst split_js.simps) simp
    moreover have "occurrences sep (sep @ drop (length sep) s) = Suc (occurrences sep (drop (length sep) s))"
      using 1(3,4) by (rule occurrences_self_append)
    ultimately show ?thesis using s by simp
  next
    case False
    show ?thesis
    proof (cases s)
      case Nil
      with 1(3) show ?thesis by (simp add: split_js_Nil)
    next
      case (Cons c cs)
      obtain p ps where ps: "split_js sep cs = p # ps"
        using split_js_not_Nil [of sep cs] by (cases "split_js sep cs") auto
      from False Cons 1 have "length (split_js sep cs) = Suc (occurrences sep cs)"
        by simp
      moreover from False Cons ps have "split_js sep s = (c # p) # ps"
        by (simp add: split_js_Cons)
      ultimately show ?thesis using Cons ps False
        by simp
    qed
  qed
qed

lemma length_replace_first:
  "length rep = length pat \<Longrightarrow> length (replace_first pat rep s) = length s"
proof (induction s)
  case Nil
  then show ?case by auto
next
  case (Cons c cs)
  show ?case
  proof (cases "prefix pat (c # cs)")
    case True
    then have "length pat \<le> length (c # cs)"
      by (rule prefix_length_le)
    with True Cons.prems show ?thesis by simp
  next
    case False
    with Cons show ?thesis by simp
  qed
qed

lemma replace_first_prefix:
  "pat \<noteq> [] \<Longrightarrow> replace_first pat rep (pat @ r) = rep @ r"
  by (cases pat) simp_all

lemma take_replace_first:
  assumes "k < length pat" and "length rep = length pat" and "take k rep = take k pat"
  shows "take k (replace_first pat rep s) = take k s"
  using assms
proof (induction s arbitrary: k)
  case Nil
  then show ?case by auto
next
  case (Cons c cs)
  show ?case
  proof (cases "prefix pat (c # cs)")
    case True
    then obtain r where r: "c # cs = pat @ r" by (auto simp: prefix_def)
    from Cons.prems have "pat \<noteq> []" by auto
    then have "replace_first pat rep (pat @ r) = rep @ r"
      by (rule replace_first_prefix)
    moreover have "take k (rep @ r) = take k (pat @ r)"
      using Cons.prems by simp
    ultimately show ?thesis by (simp only: r)
  next
    case False
    show ?thesis
    proof (cases k)
      case 0
      then show ?thesis by simp
    next
      case (Suc j)
      from Cons.prems Suc have "take j (take (Suc j) rep) = take j (take (Suc j) pat)"
        by simp
      then have "take j rep = take j pat"
        by (simp add: min_def)
      moreover from Cons.prems Suc have "j < length pat" by simp
      ultimately have "take j (replace_first pat rep cs) = take j cs"
        using Cons.prems(2) by (intro Cons.IH)
      with False Suc show ?thesis by simp
    qed
  qed
qed

lemma prefix_take_iff: "prefix p xs \<longleftrightarrow> take (length p) xs = p"
  by (metis append_take_drop_id prefix_def append_eq_conv_conj)

lemma occurrences_replace_first:
  assumes "sep \<noteq> []" and "hd sep \<notin> set pat" and "hd sep \<notin> set rep"
    and "length rep = length pat" and "length sep \<le> length pat"
    and "take (length sep - 1) rep = take (length sep - 1) pat"
  shows "occurrences sep (replace_first pat rep s) = occurrences sep s"
  using assms
proof (induction s)
  case Nil
  then show ?case by auto
next
  case (Cons c cs)
  from Cons.prems have pat: "pat \<noteq> []" by auto
  show ?case
  proof (cases "prefix pat (c # cs)")
    case True
    then obtain r where r: "c # cs = pat @ r" by (auto simp: prefix_def)
    have "occurrences sep (replace_first pat rep (pat @ r)) = occurrences sep (rep @ r)"
      using replace_first_prefix [OF pat, of rep r] by (simp only:)
    also have "\<dots> = occurrences sep r"
      using Cons.prems by (intro occurrences_skip)
    also have "\<dots> = occurrences sep (pat @ r)"
      using Cons.prems by (intro occurrences_skip [symmetric])
    finally show ?thesis by (simp only: r)
  next
    case False
    have ih: "occurrences sep (replace_first pat rep cs) = occurrences sep cs"
      using Cons.prems by (intro Cons.IH)
    have "take (length sep - 1) (replace_first pat rep cs) = take (length sep - 1) cs"
    proof (rule take_replace_first)
      from Cons.prems(1) have "0 < length sep" by simp
      with Cons.prems(5) show "length sep - 1 < length pat" by arith
    qed (use Cons.prems in simp_all)
    then have "take (length sep) (c # replace_first pat rep cs) = take (length sep) (c # cs)"
      using Cons.prems(1) by (cases sep) simp_all
    then have "prefix sep (c # replace_first pat rep cs) = prefix sep (c # cs)"
      by (simp only: prefix_take_iff)
    with False ih show ?thesis by simp
  qed
qed

section \<open>Properties of the composers\<close>

lemma js_anchor: "js ''5802ID'' = [53, 56, 48, 50, 73, 68]"
  by (simp add: js_def)

lemma js_static: "js ''010211'' = [48, 49, 48, 50, 49, 49]"
  by (simp add: js_def)

lemma js_dynamic: "js ''010212'' = [48, 49, 48, 50, 49, 50]"
  by (simp add: js_def)

lemma length_parts: "length (split_js (js ''5802ID'') s) = Suc (occurrences (js ''5802ID'') s)"
  by (rule length_split_js) (simp_all add: js_anchor)

lemma anchor_count_replace:
  "occurrences (js ''5802ID'') (replace_first (js ''010211'') (js ''010212'') s)
     = occurrences (js ''5802ID'') s"
  by (rule occurrences_replace_first) (simp_all add: js_anchor js_static js_dynamic)

lemma anchor_count_processed:
  "occurrences (js ''5802ID'') (processed_template t) = occurrences (js ''5802ID'') (slice_0_neg 4 t)"
  by (simp add: processed_template_def anchor_count_replace)

lemma length_processed: "length (processed_template t) = length t - 4"
  by (simp add: processed_template_def length_replace_first js_static js_dynamic slice_0_neg_def)

lemma parts_two:
  assumes "occurrences (js ''5802ID'') (slice_0_neg 4 t) = 1"
  shows "split_js (js ''5802ID'') (processed_template t) = [head_segment t, tail_after_anchor t]"
    and "processed_template t = head_segment t @ js ''5802ID'' @ tail_after_anchor t"
proof -
  have "length (split_js (js ''5802ID'') (processed_template t)) = 2"
    using assms by (simp add: length_parts anchor_count_processed)
  moreover have "js ''5802ID'' \<noteq> []" by (simp add: js_anchor)
  ultimately have "split_js (js ''5802ID'') (processed_template t)
        = [split_js (js ''5802ID'') (processed_template t) ! 0,
           split_js (js ''5802ID'') (processed_template t) ! 1] \<and>
      processed_template t = split_js (js ''5802ID'') (processed_template t) ! 0 @ js ''5802ID''
        @ split_js (js ''5802ID'') (processed_template t) ! 1"
    by (intro split_js_two)
  then show "split_js (js ''5802ID'') (processed_template t) = [head_segment t, tail_after_anchor t]"
    and "processed_template t = head_segment t @ js ''5802ID'' @ tail_after_anchor t"
    by (simp_all only: head_segment_def tail_after_anchor_def)
qed

lemma createDynamicQRIS_unfold:
  "createDynamicQRIS t a =
     (if length t < 10 then Inl InvalidBaseQris
      else if isNaN a \<or> le_zero a then Inl InvalidAmount
      else if occurrences (js ''5802ID'') (slice_0_neg 4 t) \<noteq> 1 then Inl UnexpectedFormat
      else Inr (head_segment t @ amountField a @ js ''5802ID'' @ tail_after_anchor t
                @ calculateCRC16 (head_segment t @ amountField a @ js ''5802ID'' @ tail_after_anchor t)))"
  by (simp add: createDynamicQRIS_def Let_def length_parts anchor_count_processed [symmetric]
      processed_template_def [symmetric] head_segment_def tail_after_anchor_def)

lemma occurrences_pos_length:
  "0 < occurrences pat s \<Longrightarrow> length pat \<le> length s"
proof (induction s)
  case Nil
  then show ?case by (simp split: if_splits)
next
  case (Cons c cs)
  show ?case
  proof (cases "prefix pat (c # cs)")
    case True
    then show ?thesis by (rule prefix_length_le)
  next
    case False
    with Cons show ?thesis by simp
  qed
qed

lemma anchor_once_length:
  assumes "occurrences (js ''5802ID'') (slice_0_neg 4 t) = 1"
  shows "10 \<le> length t"
proof -
  from assms have "length (js ''5802ID'') \<le> length (slice_0_neg 4 t)"
    by (intro occurrences_pos_length) simp
  then show ?thesis by (simp add: js_anchor slice_0_neg_def)
qed

lemma strip_checksum:
  "slice_0_neg 4 (body @ calculateCRC16 body) = body"
  "slice_neg 4 (body @ calculateCRC16 body) = calculateCRC16 body"
  by (simp_all add: slice_0_neg_def slice_neg_def calculateCRC16_length)

lemma createQRIS_unfold:
  "createQRIS a t =
     elem_str (split_js (js ''5802ID'') (processed_template t)) 0 @ amountField a @ js ''5802ID''
       @ elem_str (split_js (js ''5802ID'') (processed_template t)) 1
       @ calculateCRC16 (elem_str (split_js (js ''5802ID'') (processed_template t)) 0 @ amountField a
           @ js ''5802ID'' @ elem_str (split_js (js ''5802ID'') (processed_template t)) 1)"
  by (simp add: createQRIS_def Let_def processed_template_def amountField_def convertCRC16_calculateCRC16)

section \<open>Properties of the amount test and of the amount field\<close>

lemma is_digit_10: "is_digit 10 c \<longleftrightarrow> 48 \<le> c \<and> c \<le> 57"
proof (cases "48 \<le> c \<and> c \<le> 57")
  case True
  then have "unat c \<le> 57" by (simp add: word_le_nat_alt)
  with True show ?thesis by (auto simp: is_digit_def digit_val_def)
next
  case False
  have "\<not> is_digit 10 c"
  proof (cases "97 \<le> c \<and> c \<le> 122")
    case True
    then have "97 \<le> unat c" by (simp add: word_le_nat_alt)
    with True False show ?thesis by (auto simp: is_digit_def digit_val_def)
  next
    case nl: False
    show ?thesis
    proof (cases "65 \<le> c \<and> c \<le> 90")
      case True
      then have "65 \<le> unat c" by (simp add: word_le_nat_alt)
      with nl True False show ?thesis by (auto simp: is_digit_def digit_val_def)
    next
      case False
      with nl \<open>\<not> (48 \<le> c \<and> c \<le> 57)\<close> show ?thesis
        by (auto simp: is_digit_def digit_val_def)
    qed
  qed
  with False show ?thesis by simp
qed

lemma digit_cases:
  assumes "is_digit 10 c"
  shows "c \<in> {48, 49, 50, 51, 52, 53, 54, 55, 56, 57}"
proof -
  from assms have "48 \<le> unat c" "unat c \<le> 57"
    by (simp_all add: is_digit_10 word_le_nat_alt)
  then have "unat c \<in> {48, 49, 50, 51, 52, 53, 54, 55, 56, 57}"
    unfolding insert_iff empty_iff by arith
  then show ?thesis
    by (simp add: word_unat_eq_iff)
qed


lemma digit_not_ws:
  assumes "is_digit 10 c"
  shows "\<not> is_ws c"
  using digit_cases [OF assms] by (elim insertE emptyE; simp add: is_ws_def)

lemma digit_not_sign:
  assumes "is_digit 10 c"
  shows "c \<noteq> 0x2B" "c \<noteq> 0x2D" "c \<noteq> 0x78" "c \<noteq> 0x58" "c \<noteq> 0x6F" "c \<noteq> 0x4F"
    "c \<noteq> 0x62" "c \<noteq> 0x42" "c \<noteq> 73"
  using digit_cases [OF assms] by auto

lemma all_digits_iff: "all_digits r ds \<longleftrightarrow> ds \<noteq> [] \<and> (\<forall>c\<in>set ds. is_digit r c)"
  by (simp add: all_digits_def dropWhile_eq_Nil_conv)

lemma trim_digits:
  assumes "all_digits 10 a"
  shows "trim a = a"
proof -
  from assms have ne: "a \<noteq> []" and dig: "\<And>c. c \<in> set a \<Longrightarrow> is_digit 10 c"
    by (simp_all add: all_digits_iff)
  from ne dig have "\<not> is_ws (hd a)"
    by (intro digit_not_ws) simp
  with ne have front: "dropWhile is_ws a = a"
    by (cases a) simp_all
  from ne dig have "\<not> is_ws (last a)"
    by (intro digit_not_ws) simp
  with ne have "dropWhile is_ws (rev a) = rev a"
    by (cases "rev a") (simp_all add: last_rev [symmetric] hd_rev)
  with front show ?thesis by (simp add: trim_def)
qed

lemma unsigned_decimal_digits:
  assumes "all_digits 10 a"
  shows "unsigned_decimal neg a = Finite neg (digits_value 10 0 a) 0"
proof -
  from assms have ne: "a \<noteq> []" and dig: "\<forall>c\<in>set a. is_digit 10 c"
    by (simp_all add: all_digits_iff)
  from ne dig have "is_digit 10 (hd a)" by simp
  then have "hd a \<noteq> 73" by (rule digit_not_sign)
  then have "a \<noteq> js ''Infinity''" by (auto simp: js_def)
  moreover from dig have "takeWhile (is_digit 10) a = a" "dropWhile (is_digit 10) a = []"
    by (simp_all add: takeWhile_eq_all_conv dropWhile_eq_Nil_conv)
  ultimately show ?thesis
    using ne unfolding unsigned_decimal_def Let_def
    by (simp only: if_False list.case simp_thms append_Nil2 exponent_part_def option.case) simp
qed

lemma ToNumber_digits:
  assumes "all_digits 10 a"
  shows "ToNumber a = Finite False (digits_value 10 0 a) 0"
proof -
  from assms have ne: "a \<noteq> []" and dig: "\<And>c. c \<in> set a \<Longrightarrow> is_digit 10 c"
    by (simp_all add: all_digits_iff)
  from ne obtain c0 r where a: "a = c0 # r" by (cases a) auto
  with dig have c0: "is_digit 10 c0" by simp
  have sd: "signed_decimal a = unsigned_decimal False a"
    using digit_not_sign(1,2) [OF c0] by (simp add: signed_decimal_def a)
  have "str_numeric_literal a = signed_decimal a"
  proof (cases r)
    case Nil
    with a show ?thesis by (simp add: str_numeric_literal_def)
  next
    case (Cons c1 ds)
    with a dig have "is_digit 10 c1" by simp
    from digit_not_sign(3-8) [OF this] a Cons show ?thesis
      by (simp add: str_numeric_literal_def)
  qed
  with sd ne show ?thesis
    by (simp add: ToNumber_def trim_digits [OF assms] unsigned_decimal_digits [OF assms])
qed

lemma amount_test_digits:
  assumes "all_digits 10 a"
  shows "isNaN a \<or> le_zero a \<longleftrightarrow> digits_value 10 0 a = 0"
  by (simp add: isNaN_def le_zero_def ToNumber_digits [OF assms])

lemma invalid_amount_iff_lemma:
  "createDynamicQRIS t a = Inl InvalidAmount \<longleftrightarrow> 10 \<le> length t \<and> (isNaN a \<or> le_zero a)"
  by (auto simp: createDynamicQRIS_unfold)

lemma js_zero: "js ''0'' = [digit_char 0]"
  by (simp add: js_def digit_char_def)

lemma toString_radix_last:
  "2 \<le> r \<Longrightarrow> \<exists>xs. toString_radix r n = xs @ [digit_char (n mod r)]"
  by (cases "n < r") (simp_all add: toString_radix_small toString_radix_step)

lemma length_prefix_digits:
  "slice_neg 2 (js ''0'' @ toString_radix 10 n) = [digit_char (n div 10 mod 10), digit_char (n mod 10)]"
proof (cases "n < 10")
  case True
  then show ?thesis
    by (simp add: toString_radix_small js_zero slice_neg_def)
next
  case False
  obtain xs where "toString_radix 10 (n div 10) = xs @ [digit_char (n div 10 mod 10)]"
    using toString_radix_last [of 10 "n div 10"] by auto
  with False have "toString_radix 10 n = xs @ [digit_char (n div 10 mod 10), digit_char (n mod 10)]"
    by (simp add: toString_radix_step)
  then show ?thesis
    by (simp add: slice_neg_def)
qed

lemma zero_pad_2_digits:
  assumes "m < 100"
  shows "zero_pad_2 m = [digit_char (m div 10), digit_char (m mod 10)]"
proof (cases "m < 10")
  case True
  then show ?thesis
    by (simp add: zero_pad_2_def toString_radix_small js_zero)
next
  case False
  with assms have "m div 10 < 10" by simp
  with False show ?thesis
    by (simp add: zero_pad_2_def toString_radix_small toString_radix_step)
qed

lemma length_prefix_mod: "slice_neg 2 (js ''0'' @ toString_radix 10 n) = zero_pad_2 (n mod 100)"
proof -
  have "n mod 100 = 10 * (n div 10 mod 10) + n mod 10"
    using mod_mult2_eq [of n 10 10] by simp
  then have "n mod 100 div 10 = n div 10 mod 10" "n mod 100 mod 10 = n mod 10"
    by simp_all
  then show ?thesis
    by (simp add: length_prefix_digits zero_pad_2_digits)
qed

lemma amountField_mod: "amountField a = js ''54'' @ zero_pad_2 (length a mod 100) @ a"
  by (simp add: amountField_def length_prefix_mod)

lemma amountField_short: "length a < 100 \<Longrightarrow> amountField a = js ''54'' @ zero_pad_2 (length a) @ a"
  by (simp add: amountField_mod)

lemma createQRIS_anchor_once:
  assumes "occurrences (js ''5802ID'') (slice_0_neg 4 t) = 1"
  shows "createQRIS a t = head_segment t @ amountField a @ js ''5802ID'' @ tail_after_anchor t
           @ calculateCRC16 (head_segment t @ amountField a @ js ''5802ID'' @ tail_after_anchor t)"
  by (simp add: createQRIS_unfold parts_two(1) [OF assms] elem_str_def)

section \<open>Evaluation at concrete inputs\<close>

text \<open>Rules that compute the functions of the model on literals, and the values they
  give at the inputs used below.\<close>

lemma crc_round_numeral:
  "crc_round (numeral k) =
     (if (numeral k :: 32 word) AND 0x8000 \<noteq> 0 then push_bit 1 (numeral k) XOR 0x1021
      else push_bit 1 (numeral k))"
  by (simp add: crc_round_def)

lemma crc_round_zero: "crc_round 0 = 0"
  by (simp add: crc_round_def)

lemma crc_rounds_numeral:
  "crc_rounds (numeral n) crc = crc_rounds (pred_numeral n) (crc_round crc)"
  by (simp add: numeral_eq_Suc)

lemma crc_rounds_one: "crc_rounds (Suc 0) crc = crc_round crc"
  by simp

lemma crc_char_numeral:
  "crc_char (numeral a) (numeral b) =
     crc_rounds 8 (numeral a XOR push_bit 8 (ucast (numeral b :: 16 word)))"
  "crc_char 0 (numeral b) = crc_rounds 8 (push_bit 8 (ucast (numeral b :: 16 word)))"
  by (simp_all add: crc_char_def)

lemmas crc_eval = calculateCRC16_def crc_round_numeral crc_round_zero crc_rounds_numeral crc_rounds_one
  crc_rounds.simps(1) crc_char_numeral crc_loop.simps toString_radix_small toString_radix_step
  slice_neg_def toUpperCase_def upper_char_def digit_char_def

lemmas number_eval = isNaN_def le_zero_def ToNumber_def trim_def is_ws_def str_numeric_literal_def
  signed_decimal_def unsigned_decimal_def is_digit_def digit_val_def exponent_part_def all_digits_def
  radix_literal_def

lemmas compose_eval = processed_template_def head_segment_def tail_after_anchor_def slice_0_neg_def
  split_js_Nil split_js_Cons amountField_def slice_neg_def toString_radix_small toString_radix_step
  digit_char_def elem_str_def

lemma amount_15000: "\<not> isNaN (js ''15000'') \<and> \<not> le_zero (js ''15000'')"
  by (simp add: js_def number_eval)

lemma field_15000: "amountField (js ''15000'') = js ''540515000''"
  by (simp add: js_def compose_eval)

lemma static_template_parts:
  "occurrences (js ''5802ID'') (slice_0_neg 4 (js ''00020101021153033605802ID6304ABCD'')) = 1"
  "head_segment (js ''00020101021153033605802ID6304ABCD'') = js ''0002010102125303360''"
  "tail_after_anchor (js ''00020101021153033605802ID6304ABCD'') = js ''6304''"
  by (simp_all add: js_def compose_eval)

lemma static_template_crc:
  "calculateCRC16 (js ''00020101021253033605405150005802ID6304'') = js ''B376''"
  by (simp add: js_def crc_eval del: crc_rounds.simps)

lemma js_append: "js a @ js b = js (a @ b)"
  by (simp add: js_def)

lemma js_append_assoc: "js a @ js b @ r = js (a @ b) @ r"
  by (simp add: js_def)

lemma length_js: "length (js a) = length a"
  by (simp add: js_def)

lemma static_template_payload:
  "createDynamicQRIS (js ''00020101021153033605802ID6304ABCD'') (js ''15000'')
     = Inr (js ''00020101021253033605405150005802ID6304B376'')"
proof -
  have "calculateCRC16 (js ''0002010102125303360'' @ js ''540515000'' @ js ''5802ID'' @ js ''6304'')
      = js ''B376''"
    by (simp add: js_append static_template_crc)
  then show ?thesis
    by (simp add: createDynamicQRIS_unfold static_template_parts field_15000 amount_15000
        length_js js_append)
qed

lemma long_amount_chars:
  "long_amount = js ''1000000000000000000000000000000000000000000000000000000000000000000000000000000000000000000000000000''"
  by (simp add: long_amount_def eval_nat_numeral)

lemma long_amount_length: "length long_amount = 100"
  by (simp add: long_amount_def length_js)

lemma long_amount_digits: "all_digits 10 long_amount"
  by (simp add: long_amount_def js_def all_digits_iff is_digit_def digit_val_def)

lemma long_amount_value: "digits_value 10 0 long_amount = 10 ^ 99"
  by (simp add: long_amount_chars js_def digit_val_def)

lemma long_amount_accepted: "\<not> isNaN long_amount \<and> \<not> le_zero long_amount"
  using amount_test_digits [OF long_amount_digits] by (simp add: long_amount_value)

lemma zero_pad_2_values: "zero_pad_2 0 = js ''00''" "zero_pad_2 5 = js ''05''" "zero_pad_2 100 = js ''100''"
  by (simp_all add: zero_pad_2_def toString_radix_small toString_radix_step digit_char_def js_def)

lemma long_amount_field: "amountField long_amount = js ''5400'' @ long_amount"
  by (simp add: amountField_mod long_amount_length zero_pad_2_values js_append_assoc)

lemma long_amount_crc:
  "calculateCRC16 (js ''0002010102125303360540010000000000000000000000000000000000000000000000000000000000000000000000000000000000000000000000000005802ID6304'') = js ''EF1F''"
  by (simp add: js_def crc_eval del: crc_rounds.simps)

lemma long_amount_payload:
  "createDynamicQRIS (js ''00020101021153033605802ID6304ABCD'') long_amount
     = Inr (js ''00020101021253033605400'' @ long_amount @ js ''5802ID6304EF1F'')"
proof -
  have "calculateCRC16 (js ''0002010102125303360'' @ (js ''5400'' @ long_amount) @ js ''5802ID'' @ js ''6304'')
      = js ''EF1F''"
    by (simp add: long_amount_chars js_append long_amount_crc)
  moreover have "js ''0002010102125303360'' @ (js ''5400'' @ long_amount) @ js ''5802ID'' @ js ''6304'' @ js ''EF1F''
      = js ''00020101021253033605400'' @ long_amount @ js ''5802ID6304EF1F''"
    by (simp add: js_def)
  ultimately show ?thesis
    using long_amount_accepted
    by (simp add: createDynamicQRIS_unfold static_template_parts long_amount_field length_js)
qed

lemma createDynamicQRIS_success:
  assumes "createDynamicQRIS t a = Inr out"
  shows "occurrences (js ''5802ID'') (slice_0_neg 4 t) = 1"
    and "\<not> isNaN a" and "\<not> le_zero a"
    and "out = head_segment t @ amountField a @ js ''5802ID'' @ tail_after_anchor t
           @ calculateCRC16 (head_segment t @ amountField a @ js ''5802ID'' @ tail_after_anchor t)"
  using assms by (auto simp: createDynamicQRIS_unfold split: if_splits)

lemma amountField_prefix:
  "take 2 (drop 2 (amountField a)) = slice_neg 2 (js ''0'' @ toString_radix 10 (length a))"
  by (simp only: amountField_def length_prefix_digits) (simp add: js_def)

lemma rejected_amounts:
  "isNaN (js ''abc'')" "isNaN (js ''15.000,00'')" "le_zero (js ''0'')" "le_zero (js ''-5'')"
  "le_zero (js ''  '')"
  by (simp_all add: js_def number_eval)

section \<open>The composed payload\<close>

text \<open>
  Claim C1 (round trip).  Whenever \<open>createDynamicQRIS\<close> accepts a template and an amount
  and composes an output, stripping the last four characters of the output and
  recomputing the checksum over the rest gives exactly those four characters.  The
  same holds for the output of \<open>createQRIS\<close>, which composes an output for every
  input.
\<close>

theorem checksum_round_trip:
  assumes "createDynamicQRIS template amount = Inr output"
  shows "calculateCRC16 (slice_0_neg 4 output) = slice_neg 4 output \<and>
         convertCRC16 (slice_0_neg 4 (createQRIS amount template))
           = slice_neg 4 (createQRIS amount template)"
proof
  from assms have out: "output =
      (head_segment template @ amountField amount @ js ''5802ID'' @ tail_after_anchor template)
      @ calculateCRC16
          (head_segment template @ amountField amount @ js ''5802ID'' @ tail_after_anchor template)"
    by (auto simp: createDynamicQRIS_unfold split: if_splits)
  show "calculateCRC16 (slice_0_neg 4 output) = slice_neg 4 output"
    by (simp only: out strip_checksum)
  have res: "createQRIS amount template =
      (elem_str (split_js (js ''5802ID'') (processed_template template)) 0 @ amountField amount
         @ js ''5802ID'' @ elem_str (split_js (js ''5802ID'') (processed_template template)) 1)
      @ calculateCRC16
          (elem_str (split_js (js ''5802ID'') (processed_template template)) 0 @ amountField amount
             @ js ''5802ID'' @ elem_str (split_js (js ''5802ID'') (processed_template template)) 1)"
    by (simp add: createQRIS_unfold)
  show "convertCRC16 (slice_0_neg 4 (createQRIS amount template))
           = slice_neg 4 (createQRIS amount template)"
    by (simp only: res strip_checksum convertCRC16_calculateCRC16)
qed

theorem checksum_round_trip_witness:
  "createDynamicQRIS (js ''00020101021153033605802ID6304ABCD'') (js ''15000'')
     = Inr (js ''00020101021253033605405150005802ID6304B376'') \<and>
   calculateCRC16 (slice_0_neg 4 (js ''00020101021253033605405150005802ID6304B376''))
     = slice_neg 4 (js ''00020101021253033605405150005802ID6304B376'') \<and>
   slice_neg 4 (js ''00020101021253033605405150005802ID6304B376'') = js ''B376''"
proof -
  have "slice_neg 4 (js ''00020101021253033605405150005802ID6304B376'') = js ''B376''"
    by (simp add: js_def slice_neg_def)
  with static_template_payload checksum_round_trip [OF static_template_payload]
  show ?thesis by (simp only: simp_thms)
qed

text \<open>
  Claim C7 (length).  For every successful composition by \<open>createDynamicQRIS\<close> the length
  of the output is the length of the head, plus that of the amount field, plus that of
  the anchor field, plus that of the tail after the anchor, plus 4; equally, it is the
  length of the template minus 4 (the old checksum), plus the length of the amount field,
  plus 4 (the new checksum).  The template has at least four characters then, so the
  subtraction is exact.
\<close>

theorem output_length:
  assumes "createDynamicQRIS template amount = Inr output"
  shows "length output = length (head_segment template) + length (amountField amount)
           + length (js ''5802ID'') + length (tail_after_anchor template) + 4 \<and>
         length output = length template - 4 + length (amountField amount) + 4 \<and>
         4 \<le> length template"
proof -
  from assms have len: "10 \<le> length template"
    and once: "occurrences (js ''5802ID'') (slice_0_neg 4 template) = 1"
    and out: "output = head_segment template @ amountField amount @ js ''5802ID''
        @ tail_after_anchor template
        @ calculateCRC16 (head_segment template @ amountField amount @ js ''5802ID''
            @ tail_after_anchor template)"
    by (auto simp: createDynamicQRIS_unfold split: if_splits)
  have first: "length output = length (head_segment template) + length (amountField amount)
           + length (js ''5802ID'') + length (tail_after_anchor template) + 4"
    by (subst out) (simp add: calculateCRC16_length)
  have "length (processed_template template)
      = length (head_segment template) + length (js ''5802ID'') + length (tail_after_anchor template)"
    by (subst parts_two(2) [OF once]) simp
  then have "length template - 4
      = length (head_segment template) + length (js ''5802ID'') + length (tail_after_anchor template)"
    by (simp only: length_processed)
  with first len show ?thesis by simp
qed

theorem output_length_witness:
  "createDynamicQRIS (js ''00020101021153033605802ID6304ABCD'') (js ''15000'')
     = Inr (js ''00020101021253033605405150005802ID6304B376'') \<and>
   length (js ''00020101021253033605405150005802ID6304B376'')
     = length (head_segment (js ''00020101021153033605802ID6304ABCD''))
       + length (amountField (js ''15000'')) + length (js ''5802ID'')
       + length (tail_after_anchor (js ''00020101021153033605802ID6304ABCD'')) + 4 \<and>
   length (js ''00020101021253033605405150005802ID6304B376'')
     = length (js ''00020101021153033605802ID6304ABCD'') - 4 + length (amountField (js ''15000'')) + 4 \<and>
   length (js ''00020101021153033605802ID6304ABCD'') = 33 \<and>
   length (amountField (js ''15000'')) = 9 \<and>
   length (js ''00020101021253033605405150005802ID6304B376'') = 42"
proof -
  have "length (js ''00020101021153033605802ID6304ABCD'') = 33"
    and "length (amountField (js ''15000'')) = 9"
    and "length (js ''00020101021253033605405150005802ID6304B376'') = 42"
    by (simp_all add: field_15000 length_js)
  with static_template_payload output_length [OF static_template_payload]
  show ?thesis by blast
qed

section \<open>The two composers\<close>

text \<open>
  Claim C9, amended.  For every template whose checksum-stripped part (all but its last
  four characters) contains the anchor \<open>5802ID\<close> exactly once, and every amount that
  passes the amount test of \<open>createDynamicQRIS\<close> (\<open>createQRIS\<close> has none),
  \<open>createDynamicQRIS\<close> succeeds and its payload is, character for character, the one
  composed by \<open>createQRIS\<close>.
\<close>

theorem composers_agree:
  assumes "occurrences (js ''5802ID'') (slice_0_neg 4 template) = 1"
    and "\<not> isNaN amount" and "\<not> le_zero amount"
  shows "createDynamicQRIS template amount = Inr (createQRIS amount template)"
proof -
  have "10 \<le> length template"
    using assms(1) by (rule anchor_once_length)
  moreover have "elem_str (split_js (js ''5802ID'') (processed_template template)) 0 = head_segment template"
    and "elem_str (split_js (js ''5802ID'') (processed_template template)) 1 = tail_after_anchor template"
    by (simp_all add: parts_two(1) [OF assms(1)] elem_str_def)
  ultimately show ?thesis
    using assms by (simp add: createDynamicQRIS_unfold createQRIS_unfold)
qed

theorem composers_agree_witness:
  "occurrences (js ''5802ID'') (slice_0_neg 4 (js ''00020101021153033605802ID6304ABCD'')) = 1 \<and>
   \<not> isNaN (js ''15000'') \<and> \<not> le_zero (js ''15000'') \<and>
   createDynamicQRIS (js ''00020101021153033605802ID6304ABCD'') (js ''15000'')
     = Inr (createQRIS (js ''15000'') (js ''00020101021153033605802ID6304ABCD'')) \<and>
   createQRIS (js ''15000'') (js ''00020101021153033605802ID6304ABCD'')
     = js ''00020101021253033605405150005802ID6304B376''"
proof -
  note eq = composers_agree [OF static_template_parts(1) conjunct1 [OF amount_15000]
      conjunct2 [OF amount_15000]]
  from eq static_template_payload
  have "createQRIS (js ''15000'') (js ''00020101021153033605802ID6304ABCD'')
     = js ''00020101021253033605405150005802ID6304B376''"
    by simp
  with eq static_template_parts(1) amount_15000 show ?thesis
    by blast
qed

text \<open>
  As stated, with the anchor counted in the template itself, the claim fails: in the
  template below the anchor occurs once, but its last four characters are the ones
  stripped as the checksum.  \<open>createDynamicQRIS\<close> then finds no anchor and throws,
  while \<open>createQRIS\<close> composes a payload around the text \<open>undefined\<close>.
\<close>

lemma cut_anchor_template:
  "occurrences (js ''5802ID'') (js ''00020101021153035802ID'') = 1"
  "occurrences (js ''5802ID'') (slice_0_neg 4 (js ''00020101021153035802ID'')) = 0"
  "split_js (js ''5802ID'') (processed_template (js ''00020101021153035802ID''))
     = [js ''000201010212530358'']"
  by (simp_all add: js_def compose_eval)

lemma cut_anchor_crc:
  "calculateCRC16 (js ''0002010102125303585405150005802IDundefined'') = js ''4960''"
  by (simp add: js_def crc_eval del: crc_rounds.simps)

theorem composers_agree_counterexample:
  "occurrences (js ''5802ID'') (js ''00020101021153035802ID'') = 1 \<and>
   \<not> isNaN (js ''15000'') \<and> \<not> le_zero (js ''15000'') \<and>
   createDynamicQRIS (js ''00020101021153035802ID'') (js ''15000'') = Inl UnexpectedFormat \<and>
   createQRIS (js ''15000'') (js ''00020101021153035802ID'')
     = js ''0002010102125303585405150005802IDundefined4960''"
proof -
  have "createDynamicQRIS (js ''00020101021153035802ID'') (js ''15000'') = Inl UnexpectedFormat"
    using amount_15000
    by (simp add: createDynamicQRIS_unfold cut_anchor_template length_js)
  moreover have "calculateCRC16 (js ''000201010212530358'' @ js ''540515000'' @ js ''5802ID''
      @ js ''undefined'') = js ''4960''"
    by (simp add: js_append cut_anchor_crc)
  then have "createQRIS (js ''15000'') (js ''00020101021153035802ID'')
     = js ''0002010102125303585405150005802IDundefined4960''"
    by (simp add: createQRIS_unfold cut_anchor_template elem_str_def field_15000 js_append)
  ultimately show ?thesis
    using amount_15000 cut_anchor_template(1) by blast
qed

section \<open>Templates without exactly one anchor\<close>

text \<open>
  Claim C4, amended.  For every template of at least 10 characters and every amount that
  passes the amount test (the two earlier guards of \<open>createDynamicQRIS\<close>), the composer
  fails with the unexpected-format error, returning no output, exactly when the anchor
  \<open>5802ID\<close> does not occur exactly once in the checksum-stripped template (all but
  the last four characters).
\<close>

theorem anchor_not_once_fails:
  assumes "10 \<le> length template" and "\<not> isNaN amount" and "\<not> le_zero amount"
  shows "createDynamicQRIS template amount = Inl UnexpectedFormat
           \<longleftrightarrow> occurrences (js ''5802ID'') (slice_0_neg 4 template) \<noteq> 1"
  using assms by (simp add: createDynamicQRIS_unfold)

lemma no_anchor_template:
  "occurrences (js ''5802ID'') (slice_0_neg 4 (js ''0002010102116304ABCD'')) = 0"
  "split_js (js ''5802ID'') (processed_template (js ''0002010102116304ABCD''))
     = [js ''0002010102126304'']"
  by (simp_all add: js_def compose_eval)

theorem anchor_not_once_fails_witness:
  "10 \<le> length (js ''0002010102116304ABCD'') \<and>
   \<not> isNaN (js ''15000'') \<and> \<not> le_zero (js ''15000'') \<and>
   occurrences (js ''5802ID'') (slice_0_neg 4 (js ''0002010102116304ABCD'')) = 0 \<and>
   createDynamicQRIS (js ''0002010102116304ABCD'') (js ''15000'') = Inl UnexpectedFormat"
proof -
  have len: "10 \<le> length (js ''0002010102116304ABCD'')"
    by (simp add: length_js)
  from anchor_not_once_fails [OF len conjunct1 [OF amount_15000] conjunct2 [OF amount_15000]]
  have "createDynamicQRIS (js ''0002010102116304ABCD'') (js ''15000'') = Inl UnexpectedFormat"
    by (simp add: no_anchor_template)
  with len amount_15000 no_anchor_template(1) show ?thesis
    by blast
qed

lemma second_anchor_template:
  "occurrences (js ''5802ID'') (js ''00020101021153033605802ID63045802ID'') = 2"
  "occurrences (js ''5802ID'') (slice_0_neg 4 (js ''00020101021153033605802ID63045802ID'')) = 1"
  "head_segment (js ''00020101021153033605802ID63045802ID'') = js ''0002010102125303360''"
  "tail_after_anchor (js ''00020101021153033605802ID63045802ID'') = js ''630458''"
  by (simp_all add: js_def compose_eval)

lemma second_anchor_crc:
  "calculateCRC16 (js ''00020101021253033605405150005802ID630458'') = js ''1834''"
  by (simp add: js_def crc_eval del: crc_rounds.simps)

theorem anchor_not_once_counterexample:
  "occurrences (js ''5802ID'') (js ''00020101021153033605802ID63045802ID'') = 2 \<and>
   createDynamicQRIS (js ''00020101021153033605802ID63045802ID'') (js ''15000'')
     = Inr (js ''00020101021253033605405150005802ID6304581834'')"
proof -
  have "calculateCRC16 (js ''0002010102125303360'' @ js ''540515000'' @ js ''5802ID'' @ js ''630458'')
      = js ''1834''"
    by (simp add: js_append second_anchor_crc)
  then have "createDynamicQRIS (js ''00020101021153033605802ID63045802ID'') (js ''15000'')
     = Inr (js ''00020101021253033605405150005802ID6304581834'')"
    by (simp add: createDynamicQRIS_unfold second_anchor_template field_15000 amount_15000
        length_js js_append)
  with second_anchor_template(1) show ?thesis
    by blast
qed

text \<open>\<open>createQRIS\<close> has no such guard: on a template without the anchor it reads
  \<open>step2[1]\<close> of a one-element array and composes a payload around \<open>undefined\<close>.\<close>

lemma createQRIS_no_guard:
  "createQRIS (js ''15000'') (js ''0002010102116304ABCD'')
     = js ''00020101021263045405150005802IDundefined7125''"
proof -
  have "calculateCRC16 (js ''00020101021263045405150005802IDundefined'') = js ''7125''"
    by (simp add: js_def crc_eval del: crc_rounds.simps)
  then have "calculateCRC16 (js ''0002010102126304'' @ js ''540515000'' @ js ''5802ID''
      @ js ''undefined'') = js ''7125''"
    by (simp add: js_append)
  then show ?thesis
    by (simp add: createQRIS_unfold no_anchor_template elem_str_def field_15000 js_append)
qed

section \<open>The amount field\<close>

text \<open>
  Claim C10 (length prefix).  For an amount string of any length, the two characters
  emitted after \<open>54\<close> are the last two characters of \<open>0\<close> followed by the decimal form
  of the length, and they are the length modulo 100, zero-padded to two digits.  No test
  of the composers depends on that length: \<open>createQRIS\<close> composes its output with that
  prefix for every amount, and so does \<open>createDynamicQRIS\<close> whenever the
  checksum-stripped template has the anchor exactly once and the amount passes the
  amount test; in particular for amount strings of 100 characters or more.
\<close>

theorem length_prefix_any_length:
  "take 2 (drop 2 (amountField amount))
     = slice_neg 2 (js ''0'' @ toString_radix 10 (length amount)) \<and>
   slice_neg 2 (js ''0'' @ toString_radix 10 (length amount))
     = zero_pad_2 (length amount mod 100) \<and>
   createQRIS amount template
     = elem_str (split_js (js ''5802ID'') (processed_template template)) 0
         @ js ''54'' @ zero_pad_2 (length amount mod 100) @ amount @ js ''5802ID''
         @ elem_str (split_js (js ''5802ID'') (processed_template template)) 1
         @ calculateCRC16
             (elem_str (split_js (js ''5802ID'') (processed_template template)) 0
                @ js ''54'' @ zero_pad_2 (length amount mod 100) @ amount @ js ''5802ID''
                @ elem_str (split_js (js ''5802ID'') (processed_template template)) 1) \<and>
   (occurrences (js ''5802ID'') (slice_0_neg 4 template) = 1 \<and> \<not> isNaN amount \<and> \<not> le_zero amount
      \<longrightarrow> createDynamicQRIS template amount
           = Inr (head_segment template @ js ''54'' @ zero_pad_2 (length amount mod 100) @ amount
                  @ js ''5802ID'' @ tail_after_anchor template
                  @ calculateCRC16 (head_segment template @ js ''54''
                      @ zero_pad_2 (length amount mod 100) @ amount
                      @ js ''5802ID'' @ tail_after_anchor template)))"
proof (intro conjI impI)
  show "take 2 (drop 2 (amountField amount))
     = slice_neg 2 (js ''0'' @ toString_radix 10 (length amount))"
    by (rule amountField_prefix)
  show "slice_neg 2 (js ''0'' @ toString_radix 10 (length amount))
     = zero_pad_2 (length amount mod 100)"
    by (rule length_prefix_mod)
  show "createQRIS amount template
     = elem_str (split_js (js ''5802ID'') (processed_template template)) 0
         @ js ''54'' @ zero_pad_2 (length amount mod 100) @ amount @ js ''5802ID''
         @ elem_str (split_js (js ''5802ID'') (processed_template template)) 1
         @ calculateCRC16
             (elem_str (split_js (js ''5802ID'') (processed_template template)) 0
                @ js ''54'' @ zero_pad_2 (length amount mod 100) @ amount @ js ''5802ID''
                @ elem_str (split_js (js ''5802ID'') (processed_template template)) 1)"
    by (simp add: createQRIS_unfold amountField_mod)
next
  assume a: "occurrences (js ''5802ID'') (slice_0_neg 4 template) = 1 \<and> \<not> isNaN amount \<and> \<not> le_zero amount"
  then have "10 \<le> length template"
    by (intro anchor_once_length) simp
  with a show "createDynamicQRIS template amount
           = Inr (head_segment template @ js ''54'' @ zero_pad_2 (length amount mod 100) @ amount
                  @ js ''5802ID'' @ tail_after_anchor template
                  @ calculateCRC16 (head_segment template @ js ''54''
                      @ zero_pad_2 (length amount mod 100) @ amount
                      @ js ''5802ID'' @ tail_after_anchor template))"
    by (simp add: createDynamicQRIS_unfold amountField_mod)
qed

theorem length_prefix_any_length_witness:
  "occurrences (js ''5802ID'') (slice_0_neg 4 (js ''00020101021153033605802ID6304ABCD'')) = 1 \<and>
   \<not> isNaN long_amount \<and> \<not> le_zero long_amount \<and>
   length long_amount = 100 \<and>
   slice_neg 2 (js ''0'' @ toString_radix 10 (length long_amount)) = js ''00'' \<and>
   createDynamicQRIS (js ''00020101021153033605802ID6304ABCD'') long_amount
     = Inr (js ''00020101021253033605400'' @ long_amount @ js ''5802ID6304EF1F'') \<and>
   createQRIS long_amount (js ''00020101021153033605802ID6304ABCD'')
     = js ''00020101021253033605400'' @ long_amount @ js ''5802ID6304EF1F''"
proof -
  note t = length_prefix_any_length [of long_amount "js ''00020101021153033605802ID6304ABCD''"]
  from t have "slice_neg 2 (js ''0'' @ toString_radix 10 (length long_amount)) = js ''00''"
    by (simp add: long_amount_length zero_pad_2_values)
  moreover from t static_template_parts(1) long_amount_accepted
  have "createDynamicQRIS (js ''00020101021153033605802ID6304ABCD'') long_amount
     = Inr (js ''00020101021253033605400'' @ long_amount @ js ''5802ID6304EF1F'')"
    using long_amount_payload by blast
  moreover
  have "createQRIS long_amount (js ''00020101021153033605802ID6304ABCD'')
     = js ''00020101021253033605400'' @ long_amount @ js ''5802ID6304EF1F''"
    using long_amount_payload
    by (simp add: createQRIS_anchor_once [OF static_template_parts(1)]
        createDynamicQRIS_unfold static_template_parts long_amount_accepted length_js)
  ultimately show ?thesis
    using static_template_parts(1) long_amount_accepted long_amount_length
    by blast
qed

text \<open>
  Claim C6, amended.  For every accepted amount whose string has fewer than 100 characters,
  \<open>createDynamicQRIS\<close> builds the amount field as \<open>54\<close>, the two-digit zero-padded decimal
  length of the amount string, and the amount string; the processed template is the
  head, the anchor \<open>5802ID\<close> and the tail, and the output carries the field immediately
  after the head and immediately before the anchor.  For the amount \<open>15000\<close> the field
  is \<open>540515000\<close>.
\<close>

theorem amount_field_placement:
  assumes "createDynamicQRIS template amount = Inr output" and "length amount < 100"
  shows "amountField amount = js ''54'' @ zero_pad_2 (length amount) @ amount \<and>
         processed_template template
           = head_segment template @ js ''5802ID'' @ tail_after_anchor template \<and>
         output = head_segment template @ (js ''54'' @ zero_pad_2 (length amount) @ amount)
                    @ js ''5802ID'' @ tail_after_anchor template
                    @ calculateCRC16 (head_segment template
                        @ (js ''54'' @ zero_pad_2 (length amount) @ amount)
                        @ js ''5802ID'' @ tail_after_anchor template) \<and>
         amountField (js ''15000'') = js ''540515000''"
proof -
  note s = createDynamicQRIS_success [OF assms(1)]
  have f: "amountField amount = js ''54'' @ zero_pad_2 (length amount) @ amount"
    using assms(2) by (rule amountField_short)
  from s(4) f parts_two(2) [OF s(1)] field_15000 show ?thesis
    by simp
qed

theorem amount_field_placement_witness:
  "createDynamicQRIS (js ''00020101021153033605802ID6304ABCD'') (js ''15000'')
     = Inr (js ''00020101021253033605405150005802ID6304B376'') \<and>
   length (js ''15000'') < 100 \<and>
   amountField (js ''15000'') = js ''540515000'' \<and>
   processed_template (js ''00020101021153033605802ID6304ABCD'')
     = js ''0002010102125303360'' @ js ''5802ID'' @ js ''6304'' \<and>
   js ''00020101021253033605405150005802ID6304B376''
     = js ''0002010102125303360'' @ js ''540515000'' @ js ''5802ID'' @ js ''6304'' @ js ''B376''"
proof -
  have len: "length (js ''15000'') < 100" by (simp add: length_js)
  note t = amount_field_placement [OF static_template_payload len]
  from t have "processed_template (js ''00020101021153033605802ID6304ABCD'')
     = js ''0002010102125303360'' @ js ''5802ID'' @ js ''6304''"
    by (simp add: static_template_parts)
  moreover have "js ''00020101021253033605405150005802ID6304B376''
     = js ''0002010102125303360'' @ js ''540515000'' @ js ''5802ID'' @ js ''6304'' @ js ''B376''"
    by (simp add: js_def)
  ultimately show ?thesis
    using static_template_payload len field_15000 by blast
qed

text \<open>
  As stated, for every accepted amount, the claim fails: the amount of one hundred digits
  is accepted, its length has the three-digit decimal form \<open>100\<close>, and the field
  carries \<open>00\<close>.
\<close>

theorem amount_field_placement_counterexample:
  "createDynamicQRIS (js ''00020101021153033605802ID6304ABCD'') long_amount
     = Inr (js ''00020101021253033605400'' @ long_amount @ js ''5802ID6304EF1F'') \<and>
   length long_amount = 100 \<and>
   zero_pad_2 (length long_amount) = js ''100'' \<and>
   amountField long_amount = js ''5400'' @ long_amount \<and>
   amountField long_amount \<noteq> js ''54'' @ zero_pad_2 (length long_amount) @ long_amount"
proof -
  have "zero_pad_2 (length long_amount) = js ''100''"
    by (simp add: long_amount_length zero_pad_2_values)
  moreover from this have "amountField long_amount \<noteq> js ''54'' @ zero_pad_2 (length long_amount) @ long_amount"
    by (simp add: long_amount_field js_def)
  ultimately show ?thesis
    using long_amount_payload long_amount_length long_amount_field by blast
qed

section \<open>Rejected amounts\<close>

text \<open>
  Claim C5, amended.  \<open>createDynamicQRIS\<close> rejects an amount with the invalid-amount error
  exactly when the template has at least 10 characters (the earlier guard) and the
  amount is not numeric or not positive; the length of the amount plays no part, and for
  an amount written in decimal digits only, however many, the test is whether its value
  is zero.  The error is the result whatever the template contains, so the rejection
  comes before the template is split and the amount field is formatted.
\<close>

theorem amount_rejection:
  "(createDynamicQRIS template amount = Inl InvalidAmount
      \<longleftrightarrow> 10 \<le> length template \<and> (isNaN amount \<or> le_zero amount)) \<and>
   (all_digits 10 amount \<longrightarrow> (isNaN amount \<or> le_zero amount \<longleftrightarrow> digits_value 10 0 amount = 0))"
  by (simp add: invalid_amount_iff_lemma amount_test_digits)

theorem amount_rejection_witness:
  "10 \<le> length (js ''00020101021153033605802ID6304ABCD'') \<and>
   createDynamicQRIS (js ''00020101021153033605802ID6304ABCD'') (js ''abc'') = Inl InvalidAmount \<and>
   createDynamicQRIS (js ''00020101021153033605802ID6304ABCD'') (js ''0'') = Inl InvalidAmount \<and>
   all_digits 10 long_amount \<and> digits_value 10 0 long_amount = 10 ^ 99 \<and>
   \<not> (isNaN long_amount \<or> le_zero long_amount) \<and>
   createDynamicQRIS (js ''00020101021153033605802ID6304ABCD'') long_amount \<noteq> Inl InvalidAmount"
proof -
  have len: "10 \<le> length (js ''00020101021153033605802ID6304ABCD'')"
    by (simp add: length_js)
  from amount_rejection [of "js ''00020101021153033605802ID6304ABCD''" "js ''abc''"] len rejected_amounts(1)
  have a: "createDynamicQRIS (js ''00020101021153033605802ID6304ABCD'') (js ''abc'') = Inl InvalidAmount"
    by blast
  from amount_rejection [of "js ''00020101021153033605802ID6304ABCD''" "js ''0''"] len rejected_amounts(3)
  have b: "createDynamicQRIS (js ''00020101021153033605802ID6304ABCD'') (js ''0'') = Inl InvalidAmount"
    by blast
  note t = amount_rejection [of "js ''00020101021153033605802ID6304ABCD''" long_amount]
  from t long_amount_digits long_amount_value
  have c: "\<not> (isNaN long_amount \<or> le_zero long_amount)"
    by simp
  with t have d: "createDynamicQRIS (js ''00020101021153033605802ID6304ABCD'') long_amount \<noteq> Inl InvalidAmount"
    by blast
  from len a b long_amount_digits long_amount_value c d show ?thesis
    by blast
qed

text \<open>
  As stated, with rejection of every amount of more than 99 characters, the claim fails:
  the amount of one hundred digits is accepted and a payload is composed.
\<close>

theorem amount_rejection_counterexample:
  "all_digits 10 long_amount \<and> length long_amount = 100 \<and>
   createDynamicQRIS (js ''00020101021153033605802ID6304ABCD'') long_amount
     = Inr (js ''00020101021253033605400'' @ long_amount @ js ''5802ID6304EF1F'')"
  using long_amount_digits long_amount_length long_amount_payload by blast

section \<open>The mode markers\<close>

text \<open>
  The markers consist of the characters \<open>0\<close>, \<open>1\<close> and \<open>2\<close> only, so no occurrence of
  a marker extends over a character outside that set: the \<open>5\<close> and \<open>D\<close> of the anchor
  and the \<open>54\<close> of the amount field separate the head, the amount field and the tail.
\<close>

lemma prefix_barrier:
  assumes "b \<notin> set pat"
  shows "prefix pat (zs @ b # ys) \<longleftrightarrow> prefix pat zs"
proof
  assume "prefix pat (zs @ b # ys)"
  then consider "prefix pat zs" | us where "pat = zs @ us" "prefix us (b # ys)"
    by (auto simp: prefix_append)
  then show "prefix pat zs"
  proof cases
    case 1
    then show ?thesis .
  next
    case 2
    with assms have "us = []" by (cases us) auto
    with 2 show ?thesis by simp
  qed
next
  assume "prefix pat zs"
  then show "prefix pat (zs @ b # ys)" by (rule prefix_prefix)
qed

lemma occurrences_barrier:
  assumes "pat \<noteq> []" and "b \<notin> set pat"
  shows "occurrences pat (xs @ b # ys) = occurrences pat xs + occurrences pat ys"
proof (induction xs)
  case Nil
  from assms have "\<not> prefix pat (b # ys)" by (cases pat) auto
  with assms(1) show ?case by simp
next
  case (Cons x xs)
  have "prefix pat ((x # xs) @ b # ys) \<longleftrightarrow> prefix pat (x # xs)"
    using assms(2) by (rule prefix_barrier)
  with Cons show ?case by simp
qed

lemma occurrences_short: "length s < length pat \<Longrightarrow> occurrences pat s = 0"
proof (induction s)
  case Nil
  then show ?case by auto
next
  case (Cons c cs)
  then have "\<not> prefix pat (c # cs)"
    using prefix_length_le [of pat "c # cs"] by auto
  with Cons show ?case by simp
qed

lemma prefix_replace_first:
  assumes "sep \<noteq> []" and "length sep \<le> length pat" and "length rep = length pat"
    and "take (length sep - 1) rep = take (length sep - 1) pat"
  shows "prefix sep (c # replace_first pat rep cs) = prefix sep (c # cs)"
proof -
  have "take (length sep - 1) (replace_first pat rep cs) = take (length sep - 1) cs"
  proof (rule take_replace_first)
    from assms(1) have "0 < length sep" by simp
    with assms(2) show "length sep - 1 < length pat" by arith
  qed (use assms in simp_all)
  then have "take (length sep) (c # replace_first pat rep cs) = take (length sep) (c # cs)"
    using assms(1) by (cases sep) simp_all
  then show ?thesis
    by (simp only: prefix_take_iff)
qed

lemma marker_counts_at_marker:
  "occurrences (js ''010211'') (js ''010211'' @ r) = Suc (occurrences (js ''010211'') r)"
  "occurrences (js ''010211'') (js ''010212'' @ r) = occurrences (js ''010211'') r"
  "occurrences (js ''010212'') (js ''010211'' @ r) = occurrences (js ''010212'') r"
  "occurrences (js ''010212'') (js ''010212'' @ r) = Suc (occurrences (js ''010212'') r)"
  by (simp_all add: js_static js_dynamic)


lemma marker_prefix_replace:
  "prefix (js ''010211'') (c # replace_first (js ''010211'') (js ''010212'') cs)
     = prefix (js ''010211'') (c # cs)"
  "prefix (js ''010212'') (c # replace_first (js ''010211'') (js ''010212'') cs)
     = prefix (js ''010212'') (c # cs)"
  by (rule prefix_replace_first; simp add: js_static js_dynamic)+

lemma static_count_replace:
  "occurrences (js ''010211'') (replace_first (js ''010211'') (js ''010212'') s)
     = occurrences (js ''010211'') s - 1"
proof (induction s)
  case Nil
  then show ?case by (simp add: js_static)
next
  case (Cons c cs)
  show ?case
  proof (cases "prefix (js ''010211'') (c # cs)")
    case True
    then obtain r where r: "c # cs = js ''010211'' @ r" by (auto simp: prefix_def)
    have "js ''010211'' \<noteq> []" by (simp add: js_static)
    then have "replace_first (js ''010211'') (js ''010212'') (js ''010211'' @ r) = js ''010212'' @ r"
      by (rule replace_first_prefix)
    then have "occurrences (js ''010211'') (replace_first (js ''010211'') (js ''010212'') (c # cs))
        = occurrences (js ''010211'') r"
      by (simp only: r marker_counts_at_marker)
    moreover have "occurrences (js ''010211'') (c # cs) = Suc (occurrences (js ''010211'') r)"
      by (simp only: r marker_counts_at_marker)
    ultimately show ?thesis by simp
  next
    case False
    then have "\<not> prefix (js ''010211'') (c # replace_first (js ''010211'') (js ''010212'') cs)"
      by (simp add: marker_prefix_replace)
    with False Cons show ?thesis by simp
  qed
qed

lemma dynamic_count_replace:
  "occurrences (js ''010212'') (replace_first (js ''010211'') (js ''010212'') s)
     = occurrences (js ''010212'') s + (if 0 < occurrences (js ''010211'') s then 1 else 0)"
proof (induction s)
  case Nil
  then show ?case by (simp add: js_static js_dynamic)
next
  case (Cons c cs)
  show ?case
  proof (cases "prefix (js ''010211'') (c # cs)")
    case True
    then obtain r where r: "c # cs = js ''010211'' @ r" by (auto simp: prefix_def)
    have "js ''010211'' \<noteq> []" by (simp add: js_static)
    then have "replace_first (js ''010211'') (js ''010212'') (js ''010211'' @ r) = js ''010212'' @ r"
      by (rule replace_first_prefix)
    then have "occurrences (js ''010212'') (replace_first (js ''010211'') (js ''010212'') (c # cs))
        = Suc (occurrences (js ''010212'') r)"
      by (simp only: r marker_counts_at_marker)
    moreover have "occurrences (js ''010212'') (c # cs) = occurrences (js ''010212'') r"
      and "occurrences (js ''010211'') (c # cs) = Suc (occurrences (js ''010211'') r)"
      by (simp_all only: r marker_counts_at_marker)
    ultimately show ?thesis by simp
  next
    case False
    have "prefix (js ''010212'') (c # replace_first (js ''010211'') (js ''010212'') cs)
        = prefix (js ''010212'') (c # cs)"
      by (rule marker_prefix_replace)
    with False Cons show ?thesis by simp
  qed
qed

lemma anchor_split_count:
  assumes "53 \<notin> set m" and "68 \<notin> set m" and "4 < length m"
  shows "occurrences m (h @ js ''5802ID'' @ t) = occurrences m h + occurrences m t"
proof -
  from assms(3) have ne: "m \<noteq> []" by auto
  have "h @ js ''5802ID'' @ t = h @ 53 # ([56, 48, 50, 73] @ 68 # t)"
    by (simp add: js_anchor)
  moreover have "occurrences m (h @ 53 # ([56, 48, 50, 73] @ 68 # t))
      = occurrences m h + occurrences m ([56, 48, 50, 73] @ 68 # t)"
    using ne assms(1) by (rule occurrences_barrier)
  moreover have "occurrences m ([56, 48, 50, 73] @ 68 # t)
      = occurrences m [56, 48, 50, 73] + occurrences m t"
    using ne assms(2) by (rule occurrences_barrier)
  moreover have "occurrences m [56, 48, 50, 73] = 0"
    using assms(3) by (intro occurrences_short) simp
  ultimately show ?thesis by simp
qed

lemma amountField_chars: "amountField a = 53 # 52 # drop 2 (amountField a)"
  by (simp add: amountField_def js_def)

lemma field_split_count:
  assumes "53 \<notin> set m" and "52 \<notin> set m" and "m \<noteq> []"
  shows "occurrences m (h @ amountField a @ r)
           = occurrences m h + occurrences m (drop 2 (amountField a) @ r)"
proof -
  have e: "h @ amountField a @ r = h @ 53 # ([] @ 52 # (drop 2 (amountField a) @ r))"
    by (subst amountField_chars) simp
  have "occurrences m (h @ amountField a @ r)
      = occurrences m (h @ 53 # ([] @ 52 # (drop 2 (amountField a) @ r)))"
    by (simp only: e)
  also have "\<dots> = occurrences m h + occurrences m ([] @ 52 # (drop 2 (amountField a) @ r))"
    using assms(3,1) by (rule occurrences_barrier)
  also have "occurrences m ([] @ 52 # (drop 2 (amountField a) @ r))
      = occurrences m [] + occurrences m (drop 2 (amountField a) @ r)"
    using assms(3,2) by (rule occurrences_barrier)
  also have "occurrences m [] = 0"
    using assms(3) by simp
  finally show ?thesis by simp
qed

lemma body_count:
  assumes "53 \<notin> set m" and "52 \<notin> set m" and "68 \<notin> set m" and "4 < length m"
  shows "occurrences m (h @ amountField a @ js ''5802ID'' @ t)
           = occurrences m h + occurrences m (amountField a) + occurrences m t"
proof -
  from assms(4) have ne: "m \<noteq> []" by auto
  have "occurrences m (h @ amountField a @ js ''5802ID'' @ t)
      = occurrences m h + occurrences m (drop 2 (amountField a) @ js ''5802ID'' @ t)"
    using assms(1,2) ne by (rule field_split_count)
  moreover have "occurrences m (drop 2 (amountField a) @ js ''5802ID'' @ t)
      = occurrences m (drop 2 (amountField a)) + occurrences m t"
    using assms(1,3,4) by (rule anchor_split_count)
  moreover have "occurrences m ([] @ amountField a @ [])
      = occurrences m [] + occurrences m (drop 2 (amountField a) @ [])"
    using assms(1,2) ne by (rule field_split_count)
  ultimately show ?thesis using ne by simp
qed


lemma prefix_within:
  assumes "length m \<le> length xs"
  shows "prefix m (xs @ ys) \<longleftrightarrow> prefix m xs"
  using assms by (auto simp: prefix_append dest: prefix_length_le) 

lemma occurrences_append_split:
  assumes "m \<noteq> []"
  shows "occurrences m (xs @ ys)
           = occurrences m xs + occurrences m (slice_neg (length m - 1) xs @ ys)"
proof (induction xs)
  case Nil
  with assms show ?case by (simp add: slice_neg_def)
next
  case (Cons x xs)
  show ?case
  proof (cases "length m \<le> length (x # xs)")
    case True
    then have "prefix m ((x # xs) @ ys) \<longleftrightarrow> prefix m (x # xs)"
      by (rule prefix_within)
    moreover from True assms
    have "slice_neg (length m - 1) (x # xs) = slice_neg (length m - 1) xs"
      by (cases m) (simp_all add: slice_neg_def Suc_diff_le)
    ultimately show ?thesis using Cons by simp
  next
    case False
    then have short: "occurrences m (x # xs) = 0"
      by (intro occurrences_short) simp
    from False have "slice_neg (length m - 1) (x # xs) = x # xs"
      by (simp add: slice_neg_def)
    with short show ?thesis by simp
  qed
qed

lemma slice_neg_checksum:
  "slice_neg 9 (body @ calculateCRC16 body) = slice_neg 5 body @ calculateCRC16 body"
  by (simp add: slice_neg_def calculateCRC16_length)

lemma marker_count_decomposition:
  assumes ok: "createDynamicQRIS template amount = Inr output"
    and m: "53 \<notin> set m" "52 \<notin> set m" "68 \<notin> set m" "length m = 6"
  shows "occurrences m output
           = occurrences m (processed_template template) + occurrences m (amountField amount)
             + occurrences m (slice_neg 9 output)"
proof -
  note s = createDynamicQRIS_success [OF ok]
  let ?h = "head_segment template" and ?t = "tail_after_anchor template"
  let ?body = "?h @ amountField amount @ js ''5802ID'' @ ?t"
  from m(4) have ne: "m \<noteq> []" and len: "4 < length m" by auto
  have out: "output = ?body @ calculateCRC16 ?body"
    using s(4) by simp
  have proc: "processed_template template = ?h @ js ''5802ID'' @ ?t"
    using s(1) by (rule parts_two(2))
  have "slice_neg 9 (?body @ calculateCRC16 ?body) = slice_neg 5 ?body @ calculateCRC16 ?body"
    by (rule slice_neg_checksum)
  moreover have "occurrences m (?body @ calculateCRC16 ?body)
      = occurrences m ?body + occurrences m (slice_neg (length m - 1) ?body @ calculateCRC16 ?body)"
    using ne by (rule occurrences_append_split)
  ultimately have "occurrences m output = occurrences m ?body + occurrences m (slice_neg 9 output)"
    using m(4) by (simp add: out)
  moreover have "occurrences m ?body
      = occurrences m ?h + occurrences m (amountField amount) + occurrences m ?t"
    using m(1-3) len by (rule body_count)
  moreover have "occurrences m (?h @ js ''5802ID'' @ ?t) = occurrences m ?h + occurrences m ?t"
    using m(1,3) len by (rule anchor_split_count)
  ultimately show ?thesis
    by (simp add: proc)
qed

lemma marker_chars_6:
  "53 \<notin> set (js ''010211'')" "52 \<notin> set (js ''010211'')" "68 \<notin> set (js ''010211'')"
  "length (js ''010211'') = 6"
  "53 \<notin> set (js ''010212'')" "52 \<notin> set (js ''010212'')" "68 \<notin> set (js ''010212'')"
  "length (js ''010212'') = 6"
  by (simp_all add: js_def)

lemma static_template_counts:
  "occurrences (js ''010211'') (slice_0_neg 4 (js ''00020101021153033605802ID6304ABCD'')) = 1"
  "occurrences (js ''010212'') (slice_0_neg 4 (js ''00020101021153033605802ID6304ABCD'')) = 0"
  "occurrences (js ''010211'') (amountField (js ''15000'')) = 0"
  "occurrences (js ''010212'') (amountField (js ''15000'')) = 0"
  "occurrences (js ''010211'') (slice_neg 9 (js ''00020101021253033605405150005802ID6304B376'')) = 0"
  "occurrences (js ''010212'') (slice_neg 9 (js ''00020101021253033605405150005802ID6304B376'')) = 0"
  by (simp_all add: field_15000) (simp_all add: js_def slice_0_neg_def slice_neg_def)

lemma dynamic_template_parts:
  "occurrences (js ''5802ID'') (slice_0_neg 4 (js ''00020101021253033605802ID6304ABCD'')) = 1"
  "head_segment (js ''00020101021253033605802ID6304ABCD'') = js ''0002010102125303360''"
  "tail_after_anchor (js ''00020101021253033605802ID6304ABCD'') = js ''6304''"
  "occurrences (js ''010211'') (slice_0_neg 4 (js ''00020101021253033605802ID6304ABCD'')) = 0"
  "occurrences (js ''010212'') (slice_0_neg 4 (js ''00020101021253033605802ID6304ABCD'')) = 1"
  by (simp_all add: js_def compose_eval)

lemma dynamic_template_payload:
  "createDynamicQRIS (js ''00020101021253033605802ID6304ABCD'') (js ''15000'')
     = Inr (js ''00020101021253033605405150005802ID6304B376'')"
proof -
  have "calculateCRC16 (js ''0002010102125303360'' @ js ''540515000'' @ js ''5802ID'' @ js ''6304'')
      = js ''B376''"
    by (simp add: js_append static_template_crc)
  then show ?thesis
    by (simp add: createDynamicQRIS_unfold dynamic_template_parts field_15000 amount_15000
        length_js js_append)
qed

lemma straddle_template_parts:
  "occurrences (js ''5802ID'') (slice_0_neg 4 (js ''00020101021153033605802ID6304001021ABCD'')) = 1"
  "head_segment (js ''00020101021153033605802ID6304001021ABCD'') = js ''0002010102125303360''"
  "tail_after_anchor (js ''00020101021153033605802ID6304001021ABCD'') = js ''6304001021''"
  "occurrences (js ''010211'') (slice_0_neg 4 (js ''00020101021153033605802ID6304001021ABCD'')) = 1"
  "occurrences (js ''010212'') (slice_0_neg 4 (js ''00020101021153033605802ID6304001021ABCD'')) = 0"
  by (simp_all add: js_def compose_eval)

lemma straddle_crc:
  "calculateCRC16 (js ''00020101021253033605405150005802ID6304001021'') = js ''1C50''"
  by (simp add: js_def crc_eval del: crc_rounds.simps)

lemma checksum_can_complete_marker:
  "createDynamicQRIS (js ''00020101021153033605802ID6304001021ABCD'') (js ''15000'')
     = Inr (js ''00020101021253033605405150005802ID63040010211C50'')"
  "occurrences (js ''010211'') (js ''00020101021253033605405150005802ID63040010211C50'') = 1"
  "occurrences (js ''010211'') (slice_neg 9 (js ''00020101021253033605405150005802ID63040010211C50'')) = 1"
proof -
  have "calculateCRC16 (js ''0002010102125303360'' @ js ''540515000'' @ js ''5802ID'' @ js ''6304001021'')
      = js ''1C50''"
    by (simp add: js_append straddle_crc)
  then show "createDynamicQRIS (js ''00020101021153033605802ID6304001021ABCD'') (js ''15000'')
     = Inr (js ''00020101021253033605405150005802ID63040010211C50'')"
    by (simp add: createDynamicQRIS_unfold straddle_template_parts field_15000 amount_15000
        length_js js_append)
  show "occurrences (js ''010211'') (js ''00020101021253033605405150005802ID63040010211C50'') = 1"
    by (simp add: js_def)
  show "occurrences (js ''010211'') (slice_neg 9 (js ''00020101021253033605405150005802ID63040010211C50'')) = 1"
    by (simp add: js_def slice_neg_def)
qed

lemma no_marker_template:
  "occurrences (js ''5802ID'') (slice_0_neg 4 (js ''00020153033605802ID6304ABCD'')) = 1"
  "head_segment (js ''00020153033605802ID6304ABCD'') = js ''0002015303360''"
  "tail_after_anchor (js ''00020153033605802ID6304ABCD'') = js ''6304''"
  by (simp_all add: js_def compose_eval)

lemma no_marker_crc:
  "calculateCRC16 (js ''00020153033605405150005802ID6304'') = js ''1519''"
  by (simp add: js_def crc_eval del: crc_rounds.simps)

text \<open>
  Claim C3, amended.  Let \<open>createDynamicQRIS\<close> accept a template and an amount.  A marker
  of the output lies in the processed template, in the amount field, or in the last nine
  characters of the output (the five before the appended checksum and the checksum, the
  only place where a marker can overlap the checksum).  The output contains the static
  marker \<open>010211\<close> nowhere and the dynamic marker \<open>010212\<close> exactly once if and only if
  the checksum-stripped template contains the static marker at most once, neither the
  amount field nor the last nine characters of the output contain it, and the dynamic
  markers number exactly one: the one that replaces the static marker of the template,
  if it has one, those already in the checksum-stripped template, those in the amount
  field and those in the last nine characters of the output.  So the property holds for
  a template with one static marker and for a template that is already dynamic, when
  neither the amount nor the checksum adds a marker.
\<close>

theorem mode_switch:
  assumes "createDynamicQRIS template amount = Inr output"
  shows "occurrences (js ''010211'') output = 0 \<and> occurrences (js ''010212'') output = 1
     \<longleftrightarrow> occurrences (js ''010211'') (slice_0_neg 4 template) \<le> 1
         \<and> occurrences (js ''010211'') (amountField amount) = 0
         \<and> occurrences (js ''010211'') (slice_neg 9 output) = 0
         \<and> (if 0 < occurrences (js ''010211'') (slice_0_neg 4 template) then 1 else 0)
             + occurrences (js ''010212'') (slice_0_neg 4 template)
             + occurrences (js ''010212'') (amountField amount)
             + occurrences (js ''010212'') (slice_neg 9 output) = (1::nat)"
proof -
  have "occurrences (js ''010211'') output
      = occurrences (js ''010211'') (processed_template template)
        + occurrences (js ''010211'') (amountField amount)
        + occurrences (js ''010211'') (slice_neg 9 output)"
    using assms marker_chars_6(1-4) by (rule marker_count_decomposition)
  then have st: "occurrences (js ''010211'') output
      = (occurrences (js ''010211'') (slice_0_neg 4 template) - 1)
        + occurrences (js ''010211'') (amountField amount)
        + occurrences (js ''010211'') (slice_neg 9 output)"
    by (simp add: processed_template_def static_count_replace)
  have "occurrences (js ''010212'') output
      = occurrences (js ''010212'') (processed_template template)
        + occurrences (js ''010212'') (amountField amount)
        + occurrences (js ''010212'') (slice_neg 9 output)"
    using assms marker_chars_6(5-8) by (rule marker_count_decomposition)
  then have dy: "occurrences (js ''010212'') output
      = (if 0 < occurrences (js ''010211'') (slice_0_neg 4 template) then 1 else 0)
        + occurrences (js ''010212'') (slice_0_neg 4 template)
        + occurrences (js ''010212'') (amountField amount)
        + occurrences (js ''010212'') (slice_neg 9 output)"
    by (simp add: processed_template_def dynamic_count_replace)
  have "occurrences (js ''010211'') output = 0
     \<longleftrightarrow> occurrences (js ''010211'') (slice_0_neg 4 template) \<le> 1
         \<and> occurrences (js ''010211'') (amountField amount) = 0
         \<and> occurrences (js ''010211'') (slice_neg 9 output) = 0"
    unfolding st by auto
  then show ?thesis
    unfolding dy [symmetric] by blast
qed

theorem mode_switch_witness:
  "createDynamicQRIS (js ''00020101021153033605802ID6304ABCD'') (js ''15000'')
     = Inr (js ''00020101021253033605405150005802ID6304B376'') \<and>
   occurrences (js ''010211'') (slice_0_neg 4 (js ''00020101021153033605802ID6304ABCD'')) = 1 \<and>
   occurrences (js ''010212'') (slice_0_neg 4 (js ''00020101021153033605802ID6304ABCD'')) = 0 \<and>
   createDynamicQRIS (js ''00020101021253033605802ID6304ABCD'') (js ''15000'')
     = Inr (js ''00020101021253033605405150005802ID6304B376'') \<and>
   occurrences (js ''010211'') (slice_0_neg 4 (js ''00020101021253033605802ID6304ABCD'')) = 0 \<and>
   occurrences (js ''010212'') (slice_0_neg 4 (js ''00020101021253033605802ID6304ABCD'')) = 1 \<and>
   occurrences (js ''010211'') (amountField (js ''15000'')) = 0 \<and>
   occurrences (js ''010212'') (amountField (js ''15000'')) = 0 \<and>
   occurrences (js ''010211'') (slice_neg 9 (js ''00020101021253033605405150005802ID6304B376'')) = 0 \<and>
   occurrences (js ''010212'') (slice_neg 9 (js ''00020101021253033605405150005802ID6304B376'')) = 0 \<and>
   occurrences (js ''010211'') (js ''00020101021253033605405150005802ID6304B376'') = 0 \<and>
   occurrences (js ''010212'') (js ''00020101021253033605405150005802ID6304B376'') = 1"
proof -
  from mode_switch [OF static_template_payload]
  have a: "occurrences (js ''010211'') (js ''00020101021253033605405150005802ID6304B376'') = 0 \<and>
      occurrences (js ''010212'') (js ''00020101021253033605405150005802ID6304B376'') = 1"
    by (simp add: static_template_counts)
  from mode_switch [OF dynamic_template_payload]
  have b: "occurrences (js ''010211'') (js ''00020101021253033605405150005802ID6304B376'') = 0 \<and>
      occurrences (js ''010212'') (js ''00020101021253033605405150005802ID6304B376'') = 1"
    by (simp add: static_template_counts dynamic_template_parts)
  from a b static_template_payload dynamic_template_payload static_template_counts
    dynamic_template_parts(4,5)
  show ?thesis by blast
qed

text \<open>
  As stated, for every accepted template, the claim fails: \<open>replace\<close> leaves a template
  without the static marker unchanged, and the output then has no dynamic marker.
\<close>

theorem mode_switch_counterexample:
  "createDynamicQRIS (js ''00020153033605802ID6304ABCD'') (js ''15000'')
     = Inr (js ''00020153033605405150005802ID63041519'') \<and>
   occurrences (js ''010212'') (js ''00020153033605405150005802ID63041519'') = 0"
proof -
  have "calculateCRC16 (js ''0002015303360'' @ js ''540515000'' @ js ''5802ID'' @ js ''6304'')
      = js ''1519''"
    by (simp add: js_append no_marker_crc)
  then have "createDynamicQRIS (js ''00020153033605802ID6304ABCD'') (js ''15000'')
     = Inr (js ''00020153033605405150005802ID63041519'')"
    by (simp add: createDynamicQRIS_unfold no_marker_template field_15000 amount_15000
        length_js js_append)
  moreover have "occurrences (js ''010212'') (js ''00020153033605405150005802ID63041519'') = 0"
    by (simp add: js_def)
  ultimately show ?thesis by blast
qed

text \<open>The amount field and the checksum count as well: the amount \<open>1010212\<close> is
  accepted and its field carries the dynamic marker (lemma \<open>amount_can_carry_marker\<close>), and
  the checksum \<open>1C50\<close> completes a static marker begun by the last five characters of
  a template (lemma \<open>checksum_can_complete_marker\<close>).\<close>

lemma amount_can_carry_marker:
  "\<not> isNaN (js ''1010212'') \<and> \<not> le_zero (js ''1010212'')"
  "amountField (js ''1010212'') = js ''54071010212''"
  "occurrences (js ''010212'') (amountField (js ''1010212'')) = 1"
  by (simp_all add: js_def number_eval compose_eval)

end
